theory Spec2Isabelle
  imports Complex_Main "HOL-Library.AList" "HOL-Library.Char_ord" "HOL-Library.List_Lexorder"
    "HOL-Library.Multiset"
begin

section \<open>Federated aggregation engine: weight-map utilities\<close>

text \<open>
  The engine works on TensorFlow.js tensors. A tensor is modelled by its shape and its
  values in row-major order. The entries of tensors are modelled as mathematical reals:
  the \<^verbatim>\<open>float32\<close> arithmetic of the library's kernels is not part of the repository and
  is idealised. The functions that compute on JavaScript numbers themselves (the simplex
  projection and the solver) are modelled in IEEE double precision.
  Library primitives (\<^verbatim>\<open>tf.concat\<close>, \<^verbatim>\<open>tf.stack\<close>, \<^verbatim>\<open>tf.addN\<close>, \<^verbatim>\<open>sub\<close>, \<^verbatim>\<open>slice\<close>, ...) are
  modelled by their mathematical meaning; where that meaning is undefined (operands of
  different shapes, a slice out of range, the mean of nothing) the model returns
  \<open>TFError\<close>. Reading a property of \<^verbatim>\<open>undefined\<close> is \<open>TypeError\<close>.
\<close>

datatype error =
    TypeError
  | TFError
  | Collision string string
  | NotDecoderKey string
  | BadRelKey string
  | UnsupportedStrategy
  | WrongBlockCount nat nat

definition bindE :: "error + 'a \<Rightarrow> ('a \<Rightarrow> error + 'b) \<Rightarrow> error + 'b" where
  "bindE m f = (case m of Inl e \<Rightarrow> Inl e | Inr x \<Rightarrow> f x)"

fun mapE :: "('a \<Rightarrow> error + 'b) \<Rightarrow> 'a list \<Rightarrow> error + 'b list" where
  "mapE f [] = Inr []"
| "mapE f (x # xs) = bindE (f x) (\<lambda>y. bindE (mapE f xs) (\<lambda>ys. Inr (y # ys)))"

definition getE :: "'a option \<Rightarrow> error + 'a" where
  "getE x = (case x of None \<Rightarrow> Inl TypeError | Some v \<Rightarrow> Inr v)"

definition nthE :: "'a list \<Rightarrow> nat \<Rightarrow> error + 'a" where
  "nthE xs i = (if i < length xs then Inr (xs ! i) else Inl TypeError)"

definition EPS :: real where
  "EPS = 1 / 10 ^ 8"

record tensor =
  shape :: "nat list"
  vals :: "real list"

text \<open>The invariant of every library tensor: as many values as the shape announces.\<close>

definition tensor_ok :: "tensor \<Rightarrow> bool" where
  "tensor_ok t = (length (vals t) = prod_list (shape t))"

text \<open>
  A \<^verbatim>\<open>WeightMap\<close> is a JavaScript object from names to tensors. It is an association list
  in insertion order with distinct keys: \<^verbatim>\<open>m[k]\<close> is \<open>map_of m k\<close>, \<^verbatim>\<open>m[k] = t\<close> is
  \<open>AList.update k t m\<close> (in place for a known key, appended for a new one) and
  \<^verbatim>\<open>Object.keys(m)\<close> is \<open>map fst m\<close>.
\<close>

type_synonym WeightMap = "(string \<times> tensor) list"

subsection \<open>Key extraction\<close>

definition is_digit :: "char \<Rightarrow> bool" where
  "is_digit c = (c \<in> set ''0123456789'')"

text \<open>
  \<^verbatim>\<open>k.replace(/_\d+$/, "")\<close>: the regular expression is tried at each position from the
  left; it matches where an underscore is followed by one or more digits up to the end of
  the string, and the match (the rest of the string) is replaced by nothing.
\<close>

fun canonicalKey :: "string \<Rightarrow> string" where
  "canonicalKey [] = []"
| "canonicalKey (c # cs) =
     (if c = CHR ''_'' \<and> cs \<noteq> [] \<and> list_all is_digit cs then []
      else c # canonicalKey cs)"

text \<open>Whether \<^verbatim>\<open>/_\d+$/\<close> matches somewhere in the key.\<close>

fun hasAutoSuffix :: "string \<Rightarrow> bool" where
  "hasAutoSuffix [] = False"
| "hasAutoSuffix (c # cs) =
     ((c = CHR ''_'' \<and> cs \<noteq> [] \<and> list_all is_digit cs) \<or> hasAutoSuffix cs)"

definition startsWith :: "string \<Rightarrow> string \<Rightarrow> bool" where
  "startsWith k p = (take (length p) k = p)"

text \<open>
  The properties that every object literal inherits from \<^verbatim>\<open>Object.prototype\<close>. Each of them
  is a function or an object, so \<^verbatim>\<open>out[k]\<close> is truthy for these names on the empty object
  already.
\<close>

definition objectPrototypeKeys :: "string list" where
  "objectPrototypeKeys =
     [''constructor'', ''__defineGetter__'', ''__defineSetter__'', ''hasOwnProperty'',
      ''__lookupGetter__'', ''__lookupSetter__'', ''isPrototypeOf'', ''propertyIsEnumerable'',
      ''toString'', ''valueOf'', ''__proto__'', ''toLocaleString'']"

text \<open>
  \<^verbatim>\<open>toCanonicalMap\<close>: \<^verbatim>\<open>if (out[ck]) throw\<close> fails on the second raw key that has the
  same canonical name, and on a canonical name that \<^verbatim>\<open>out\<close> inherits.
\<close>

fun toCanonicalLoop :: "WeightMap \<Rightarrow> WeightMap \<Rightarrow> error + WeightMap" where
  "toCanonicalLoop [] out = Inr out"
| "toCanonicalLoop ((key, t) # rest) out =
     (let ck = canonicalKey key in
      if map_of out ck \<noteq> None \<or> ck \<in> set objectPrototypeKeys then Inl (Collision ck key)
      else toCanonicalLoop rest (AList.update ck t out))"

definition toCanonicalMap :: "WeightMap \<Rightarrow> error + WeightMap" where
  "toCanonicalMap m = toCanonicalLoop m []"

text \<open>
  \<^verbatim>\<open>Array.prototype.sort()\<close> without a comparator orders strings by code unit, which on
  the byte strings of the model is the lexicographic order of \<open>char list\<close>.
\<close>

definition getEncoderKeys :: "string list \<Rightarrow> string list" where
  "getEncoderKeys allKeys = sort (filter (\<lambda>k. startsWith k ''encoder_stage'') allKeys)"

datatype TaskName = semseg | edge | saliency | depth | normal

fun taskStr :: "TaskName \<Rightarrow> string" where
  "taskStr semseg = ''semseg''"
| "taskStr edge = ''edge''"
| "taskStr saliency = ''saliency''"
| "taskStr depth = ''depth''"
| "taskStr normal = ''normal''"

definition decPrefix :: "TaskName \<Rightarrow> string" where
  "decPrefix task = taskStr task @ ''_decoder_''"

definition getDecoderKeysForTask :: "string list \<Rightarrow> TaskName \<Rightarrow> string list" where
  "getDecoderKeysForTask allKeys task = sort (filter (\<lambda>k. startsWith k (decPrefix task)) allKeys)"

definition toRelativeDecoderKey :: "string \<Rightarrow> TaskName \<Rightarrow> error + string" where
  "toRelativeDecoderKey fullKey task =
     (if \<not> startsWith fullKey (decPrefix task) then Inl (NotDecoderKey fullKey)
      else Inr (''decoder/'' @ drop (length (decPrefix task)) fullKey))"

definition fromRelativeDecoderKey :: "string \<Rightarrow> TaskName \<Rightarrow> error + string" where
  "fromRelativeDecoderKey relKey task =
     (if \<not> startsWith relKey ''decoder/'' then Inl (BadRelKey relKey)
      else Inr (decPrefix task @ drop (length ''decoder/'') relKey))"

subsection \<open>Dictionary operations\<close>

text \<open>
  \<^verbatim>\<open>pick\<close> stores \<^verbatim>\<open>m[k]\<close> under every requested key, \<^verbatim>\<open>undefined\<close> for a key that \<^verbatim>\<open>m\<close>
  lacks. Every later use of the result is a lookup, where an absent key and a key holding
  \<^verbatim>\<open>undefined\<close> read the same, so the model leaves such a key out.
\<close>

fun pick_loop :: "WeightMap \<Rightarrow> string list \<Rightarrow> WeightMap \<Rightarrow> WeightMap" where
  "pick_loop m [] out = out"
| "pick_loop m (k # ks) out =
     pick_loop m ks (case map_of m k of None \<Rightarrow> out | Some t \<Rightarrow> AList.update k t out)"

definition pick :: "WeightMap \<Rightarrow> string list \<Rightarrow> WeightMap" where
  "pick m keys = pick_loop m keys []"

text \<open>
  Elementwise binary operations broadcast their operands. The shapes are aligned at their
  last dimension; two dimensions are compatible when they are equal or one of them is 1
  (a missing dimension counts as 1), and the result takes the other one. The functions
  below work on the reversed shapes, last dimension first.
\<close>

fun broadcastRev :: "nat list \<Rightarrow> nat list \<Rightarrow> nat list option" where
  "broadcastRev [] bs = Some bs"
| "broadcastRev (a # as) [] = Some (a # as)"
| "broadcastRev (a # as) (b # bs) =
     (if a = 1 then map_option ((#) b) (broadcastRev as bs)
      else if b = 1 \<or> a = b then map_option ((#) a) (broadcastRev as bs)
      else None)"

definition broadcastShape :: "nat list \<Rightarrow> nat list \<Rightarrow> nat list option" where
  "broadcastShape a b = map_option rev (broadcastRev (rev a) (rev b))"

text \<open>
  The row-major position in an operand of reversed shape \<open>as\<close> that supplies the entry at
  row-major position \<open>i\<close> of the result of reversed shape \<open>ds\<close>: the operand's index is the
  result's index, and 0 along a dimension of size 1.
\<close>

fun broadcastIndex :: "nat list \<Rightarrow> nat list \<Rightarrow> nat \<Rightarrow> nat" where
  "broadcastIndex ds [] i = 0"
| "broadcastIndex [] (a # as) i = 0"
| "broadcastIndex (d # ds) (a # as) i =
     (if a = 1 then 0 else i mod d) + a * broadcastIndex ds as (i div d)"

definition tbin :: "(real \<Rightarrow> real \<Rightarrow> real) \<Rightarrow> tensor \<Rightarrow> tensor \<Rightarrow> error + tensor" where
  "tbin f a b =
     (if \<not> tensor_ok a \<or> \<not> tensor_ok b then Inl TFError
      else case broadcastShape (shape a) (shape b) of
             None \<Rightarrow> Inl TFError
           | Some s \<Rightarrow>
               Inr \<lparr>shape = s,
                    vals = map (\<lambda>i. f (vals a ! broadcastIndex (rev s) (rev (shape a)) i)
                                     (vals b ! broadcastIndex (rev s) (rev (shape b)) i))
                             [0..<prod_list s]\<rparr>)"

definition tsub :: "tensor \<Rightarrow> tensor \<Rightarrow> error + tensor" where
  "tsub a b = tbin (-) a b"

text \<open>The same on vectors (\<^verbatim>\<open>Tensor1D\<close>): equal lengths, or one operand of length 1.\<close>

definition vbin :: "(real \<Rightarrow> real \<Rightarrow> real) \<Rightarrow> real list \<Rightarrow> real list \<Rightarrow> error + real list" where
  "vbin f a b =
     (if length a = length b then Inr (map2 f a b)
      else if length a = 1 then Inr (map (f (hd a)) b)
      else if length b = 1 then Inr (map (\<lambda>x. f x (hd b)) a)
      else Inl TFError)"

definition vadd :: "real list \<Rightarrow> real list \<Rightarrow> error + real list" where
  "vadd a b = vbin (+) a b"

fun deltaDict_loop :: "WeightMap \<Rightarrow> WeightMap \<Rightarrow> string list \<Rightarrow> WeightMap \<Rightarrow> error + WeightMap" where
  "deltaDict_loop cur lst [] out = Inr out"
| "deltaDict_loop cur lst (k # ks) out =
     bindE (getE (map_of cur k)) (\<lambda>c.
     bindE (getE (map_of lst k)) (\<lambda>l.
     bindE (tsub c l) (\<lambda>d.
     deltaDict_loop cur lst ks (AList.update k d out))))"

definition deltaDict :: "WeightMap \<Rightarrow> WeightMap \<Rightarrow> string list \<Rightarrow> error + WeightMap" where
  "deltaDict cur lst keys = deltaDict_loop cur lst keys []"

text \<open>
  \<^verbatim>\<open>flatten\<close>: the values of the named tensors, one after the other, as one vector
  (a \<^verbatim>\<open>Tensor1D\<close> is modelled by the list of its values). The tensors are looked up
  first; \<^verbatim>\<open>tf.concat\<close> then rejects an empty list of tensors.
\<close>

definition flatten :: "WeightMap \<Rightarrow> string list \<Rightarrow> error + real list" where
  "flatten dict keys =
     bindE (mapE (\<lambda>k. getE (map_of dict k)) keys) (\<lambda>ts.
       if ts = [] then Inl TFError else Inr (concat (map vals ts)))"

fun unflatten_loop ::
  "real list \<Rightarrow> string list \<Rightarrow> nat list list \<Rightarrow> nat \<Rightarrow> WeightMap \<Rightarrow> error + WeightMap" where
  "unflatten_loop vec [] shapes start out = Inr out"
| "unflatten_loop vec (k # ks) [] start out = Inl TypeError"
| "unflatten_loop vec (k # ks) (s # ss) start out =
     (let size = prod_list s in
      if start + size > length vec then Inl TFError
      else unflatten_loop vec ks ss (start + size)
             (AList.update k \<lparr>shape = s, vals = take size (drop start vec)\<rparr> out))"

definition unflatten :: "real list \<Rightarrow> string list \<Rightarrow> nat list list \<Rightarrow> error + WeightMap" where
  "unflatten vec keys shapes = unflatten_loop vec keys shapes 0 []"

subsection \<open>IEEE double precision\<close>

text \<open>
  A JavaScript number is a finite double, an infinity or NaN. Finite values carry their
  real value; the sign of a zero is not modelled (in the functions below the only zeros
  that divide are the integer \<^verbatim>\<open>rho + 1\<close> and a square root, both \<^verbatim>\<open>+0\<close>).
\<close>

datatype f64 = Fin real | PInf | NInf | NaN

definition pow2 :: "int \<Rightarrow> real" where
  "pow2 e = (if 0 \<le> e then 2 ^ nat e else 1 / 2 ^ nat (- e))"

text \<open>Rounding to the nearest integer, ties to the even one.\<close>

definition roundEven :: "real \<Rightarrow> int" where
  "roundEven m =
     (let f = \<lfloor>m\<rfloor>; r = m - of_int f
      in if r < 1 / 2 then f else if 1 / 2 < r then f + 1 else if even f then f else f + 1)"

text \<open>
  The exponent \<open>e\<close> of the binade of \<open>x\<close>: \<open>2\<^sup>e \<le> \<bar>x\<bar> < 2\<^sup>e\<^sup>+\<^sup>1\<close>, not below \<open>-1022\<close> (the
  subnormal range) and found by halving or doubling at most 1024 times.
\<close>

fun halve :: "nat \<Rightarrow> real \<Rightarrow> int \<Rightarrow> int" where
  "halve 0 x e = e"
| "halve (Suc k) x e = (if x < 2 then e else halve k (x / 2) (e + 1))"

fun twice :: "nat \<Rightarrow> real \<Rightarrow> int \<Rightarrow> int" where
  "twice 0 x e = e"
| "twice (Suc k) x e = (if 1 \<le> x then e else twice k (x * 2) (e - 1))"

definition binade :: "real \<Rightarrow> int" where
  "binade x = (if 1 \<le> \<bar>x\<bar> then halve 1024 \<bar>x\<bar> 0 else twice 1022 \<bar>x\<bar> 0)"

text \<open>
  Round to nearest, ties to even, with 53 significant bits: the result is the multiple of
  \<open>2\<^sup>e\<^sup>-\<^sup>5\<^sup>2\<close> nearest to \<open>x\<close>, and an infinity when that reaches \<open>2\<^sup>1\<^sup>0\<^sup>2\<^sup>4\<close>.
\<close>

definition round64 :: "real \<Rightarrow> f64" where
  "round64 x =
     (let q = pow2 (binade x - 52);
          y = of_int (roundEven (x / q)) * q
      in if pow2 1024 \<le> \<bar>y\<bar> then (if 0 < x then PInf else NInf) else Fin y)"


fun fneg :: "f64 \<Rightarrow> f64" where
  "fneg (Fin a) = Fin (- a)"
| "fneg PInf = NInf"
| "fneg NInf = PInf"
| "fneg NaN = NaN"

fun fadd :: "f64 \<Rightarrow> f64 \<Rightarrow> f64" where
  "fadd (Fin a) (Fin b) = round64 (a + b)"
| "fadd NaN b = NaN"
| "fadd a NaN = NaN"
| "fadd PInf NInf = NaN"
| "fadd NInf PInf = NaN"
| "fadd PInf b = PInf"
| "fadd NInf b = NInf"
| "fadd (Fin a) b = b"

definition fsub :: "f64 \<Rightarrow> f64 \<Rightarrow> f64" where
  "fsub a b = fadd a (fneg b)"

fun fmul :: "f64 \<Rightarrow> f64 \<Rightarrow> f64" where
  "fmul (Fin a) (Fin b) = round64 (a * b)"
| "fmul NaN b = NaN"
| "fmul a NaN = NaN"
| "fmul (Fin a) b = (if a = 0 then NaN else if 0 < a then b else fneg b)"
| "fmul a (Fin b) = (if b = 0 then NaN else if 0 < b then a else fneg a)"
| "fmul PInf b = b"
| "fmul NInf b = fneg b"

fun fdiv :: "f64 \<Rightarrow> f64 \<Rightarrow> f64" where
  "fdiv (Fin a) (Fin b) =
     (if b = 0 then (if a = 0 then NaN else if 0 < a then PInf else NInf) else round64 (a / b))"
| "fdiv NaN b = NaN"
| "fdiv a NaN = NaN"
| "fdiv (Fin a) b = Fin 0"
| "fdiv a (Fin b) = (if 0 \<le> b then a else fneg a)"
| "fdiv a b = NaN"


text \<open>A comparison with NaN is false.\<close>

fun flt :: "f64 \<Rightarrow> f64 \<Rightarrow> bool" where
  "flt (Fin a) (Fin b) = (a < b)"
| "flt NaN b = False"
| "flt a NaN = False"
| "flt a NInf = False"
| "flt PInf b = False"
| "flt a PInf = True"
| "flt NInf b = True"

definition fgt :: "f64 \<Rightarrow> f64 \<Rightarrow> bool" where
  "fgt a b = flt b a"

text \<open>\<^verbatim>\<open>Math.max\<close>, \<^verbatim>\<open>Math.min\<close> and \<^verbatim>\<open>Math.abs\<close>\<close>

definition fmax :: "f64 \<Rightarrow> f64 \<Rightarrow> f64" where
  "fmax a b = (if a = NaN \<or> b = NaN then NaN else if flt a b then b else a)"

definition fmin :: "f64 \<Rightarrow> f64 \<Rightarrow> f64" where
  "fmin a b = (if a = NaN \<or> b = NaN then NaN else if flt b a then b else a)"


text \<open>Reading an array beyond its length gives \<^verbatim>\<open>undefined\<close>, which is NaN in arithmetic.\<close>

definition nthF :: "f64 list \<Rightarrow> nat \<Rightarrow> f64" where
  "nthF xs i = (if i < length xs then xs ! i else NaN)"



subsection \<open>Simplex projection and the projected-gradient solver\<close>

text \<open>
  \<^verbatim>\<open>Array.from(v).sort((a, b) => b - a)\<close>. Without a NaN the comparator orders the numbers
  downwards (the difference of two doubles has the sign of their exact difference; equal
  infinities give NaN, which counts as 0). With a NaN, which compares as 0 against
  everything, the comparator is consistent only when the other elements are all equal, and
  then the stable sort leaves the array as it is. For any other array the language leaves
  the order to the implementation: \<open>implSort\<close> is what the engine at hand returns.
\<close>

fun insertDesc :: "f64 \<Rightarrow> f64 list \<Rightarrow> f64 list" where
  "insertDesc x [] = [x]"
| "insertDesc x (y # ys) = (if flt y x then x # y # ys else y # insertDesc x ys)"

definition sortDesc :: "(f64 list \<Rightarrow> f64 list) \<Rightarrow> f64 list \<Rightarrow> f64 list" where
  "sortDesc implSort v =
     (if NaN \<notin> set v then foldr insertDesc v []
      else if list_all (\<lambda>a. list_all (\<lambda>b. a = NaN \<or> b = NaN \<or> a = b) v) v then v
      else implSort v)"

text \<open>
  \<^verbatim>\<open>projectToSimplex\<close>: \<^verbatim>\<open>u\<close> is the sorted input; the loop keeps the running sum \<^verbatim>\<open>cssv\<close> and
  the last index \<^verbatim>\<open>rho\<close> (initially \<^verbatim>\<open>-1\<close>) at which \<^verbatim>\<open>u[i] - (cssv - 1) / (i + 1) > 0\<close>.
  When \<^verbatim>\<open>rho\<close> stays \<^verbatim>\<open>-1\<close> the threshold is \<^verbatim>\<open>-1 / 0\<close>.
\<close>

definition rho_step :: "f64 list \<Rightarrow> nat \<Rightarrow> f64 \<times> int \<Rightarrow> f64 \<times> int" where
  "rho_step u i st =
     (let cssv = fadd (fst st) (nthF u i);
          t = fdiv (fsub cssv (Fin 1)) (Fin (real (i + 1)))
      in (cssv, if fgt (fsub (nthF u i) t) (Fin 0) then int i else snd st))"

definition projectToSimplex :: "(f64 list \<Rightarrow> f64 list) \<Rightarrow> f64 list \<Rightarrow> f64 list" where
  "projectToSimplex implSort v =
     (let n = length v;
          u = sortDesc implSort v;
          rho = snd (fold (rho_step u) [0..<n] (Fin 0, - 1));
          theta = fdiv (fsub (foldl fadd (Fin 0) (take (nat (rho + 1)) u)) (Fin 1))
                    (Fin (real_of_int (rho + 1)))
      in map (\<lambda>x. fmax (fsub x theta) (Fin 0)) v)"

text \<open>The matrix \<^verbatim>\<open>A\<close> is a list of rows; \<^verbatim>\<open>n = A.length\<close> and the code reads \<^verbatim>\<open>A[i][j]\<close> for
  \<^verbatim>\<open>i, j < n\<close>. The sums are accumulated from the left, starting at 0.\<close>

definition matVec :: "f64 list list \<Rightarrow> f64 list \<Rightarrow> f64 list" where
  "matVec A x =
     (let n = length A
      in map (\<lambda>i. foldl (\<lambda>s j. fadd s (fmul (nthF (A ! i) j) (nthF x j))) (Fin 0) [0..<n]) [0..<n])"







subsection \<open>The projection and the solver over exact reals\<close>

text \<open>
  The same functions with every operation read as the exact operation on reals (no
  rounding, no overflow, a total square root). This reading is what the tensor-level
  model below calls, where arithmetic is idealised throughout, and it is the reference
  against which the double-precision functions are compared.
\<close>

definition rho_step_exact :: "real list \<Rightarrow> nat \<Rightarrow> real \<times> int \<Rightarrow> real \<times> int" where
  "rho_step_exact u i st =
     (let cssv = fst st + u ! i;
          t = (cssv - 1) / real (i + 1)
      in (cssv, if u ! i - t > 0 then int i else snd st))"

definition projectToSimplex_exact :: "real list \<Rightarrow> real list" where
  "projectToSimplex_exact v =
     (let n = length v;
          u = rev (sort v);
          rho = snd (fold (rho_step_exact u) [0..<n] (0, -1));
          theta = (sum_list (take (nat (rho + 1)) u) - 1) / real_of_int (rho + 1)
      in map (\<lambda>x. max (x - theta) 0) v)"

definition matVec_exact :: "real list list \<Rightarrow> real list \<Rightarrow> real list" where
  "matVec_exact A x =
     (let n = length A in map (\<lambda>i. sum_list (map (\<lambda>j. A ! i ! j * x ! j) [0..<n])) [0..<n])"

definition dotArr_exact :: "real list \<Rightarrow> real list \<Rightarrow> real" where
  "dotArr_exact a b = sum_list (map (\<lambda>i. a ! i * b ! i) [0..<length a])"

definition quadForm_exact :: "real list list \<Rightarrow> real list \<Rightarrow> real" where
  "quadForm_exact A x = dotArr_exact x (matVec_exact A x)"

definition objCA_exact :: "real list list \<Rightarrow> real list \<Rightarrow> real \<Rightarrow> real list \<Rightarrow> real" where
  "objCA_exact A b c x = dotArr_exact x (matVec_exact A b) + c * sqrt (quadForm_exact A x + EPS)"

definition gradCA_exact :: "real list list \<Rightarrow> real list \<Rightarrow> real \<Rightarrow> real list \<Rightarrow> real list" where
  "gradCA_exact A b c x =
     (let Ab = matVec_exact A b; Ax = matVec_exact A x; denom = sqrt (quadForm_exact A x + EPS)
      in map (\<lambda>i. Ab ! i + (c * Ax ! i) / denom) [0..<length x])"

fun solve_loop_exact ::
  "nat \<Rightarrow> real list list \<Rightarrow> real \<Rightarrow> real \<Rightarrow> real list \<Rightarrow> real \<Rightarrow> real \<Rightarrow> real list" where
  "solve_loop_exact 0 A c tol x fx step = x"
| "solve_loop_exact (Suc k) A c tol x fx step =
     (let n = length A;
          g = gradCA_exact A x c x;
          z = map (\<lambda>i. x ! i - step * g ! i) [0..<n];
          xNew = projectToSimplex_exact z;
          fNew = objCA_exact A x c xNew
      in if fNew > fx + 1 / 10 ^ 12 then
           (let step' = step * (1 / 2) in
            if step' < 1 / 10 ^ 12 then x else solve_loop_exact k A c tol x fx step')
         else
           (let diff1 = sum_list (map (\<lambda>i. \<bar>xNew ! i - x ! i\<bar>) [0..<n]);
                step' = min (step * (105 / 100)) 1
            in if diff1 < tol then xNew else solve_loop_exact k A c tol xNew fNew step'))"

definition solveSimplexProjectedGD_exact ::
  "real list list \<Rightarrow> real \<Rightarrow> nat \<Rightarrow> real \<Rightarrow> real list" where
  "solveSimplexProjectedGD_exact A c maxIters tol =
     (let n = length A;
          x = replicate n (1 / real n);
          fx = objCA_exact A x c x
      in solve_loop_exact maxIters A c tol x fx (1 / 10))"

text \<open>The simplex \<open>{w. w \<ge> 0, \<Sum>w = 1}\<close> of a given dimension, and the Euclidean distance.\<close>

definition onSimplex :: "nat \<Rightarrow> real list \<Rightarrow> bool" where
  "onSimplex n w = (length w = n \<and> list_all (\<lambda>x. 0 \<le> x) w \<and> sum_list w = 1)"

definition euclidDist :: "real list \<Rightarrow> real list \<Rightarrow> real" where
  "euclidDist a b = sqrt (sum_list (map2 (\<lambda>x y. (x - y)\<^sup>2) a b))"

text \<open>The candidate threshold after the first \<open>i + 1\<close> entries of the sorted vector.\<close>

definition tau :: "real list \<Rightarrow> nat \<Rightarrow> real" where
  "tau u i = (sum_list (take (Suc i) u) - 1) / real (Suc i)"




subsection \<open>Vectors\<close>

text \<open>\<^verbatim>\<open>tf.norm\<close> of a vector is its Euclidean norm; \<^verbatim>\<open>tf.addN\<close> needs at least one tensor and
  tensors of one shape.\<close>

definition norm2 :: "real list \<Rightarrow> real" where
  "norm2 v = sqrt (sum_list (map (\<lambda>x. x\<^sup>2) v))"

definition dotList :: "real list \<Rightarrow> real list \<Rightarrow> real" where
  "dotList a b = sum_list (map2 (*) a b)"

definition sameLengths :: "real list list \<Rightarrow> bool" where
  "sameLengths xs = list_all (\<lambda>x. length x = length (hd xs)) xs"

definition addN :: "real list list \<Rightarrow> error + real list" where
  "addN xs =
     (if xs = [] \<or> \<not> sameLengths xs then Inl TFError
      else Inr (foldl (\<lambda>acc x. map2 (+) acc x) (hd xs) (tl xs)))"

subsection \<open>Clients\<close>

text \<open>
  Of a \<^verbatim>\<open>FederatedClient\<close> the aggregation reads the dataset name, the enabled tasks in
  configuration order, and the live model, whose weights are a list of named tensors
  (\<^verbatim>\<open>model.weights\<close> with \<^verbatim>\<open>getWeights()\<close>).
\<close>

record client =
  dataname :: string
  tasks :: "TaskName list"
  weights :: WeightMap

text \<open>\<^verbatim>\<open>tasks.join("|")\<close>\<close>

fun joinBar :: "string list \<Rightarrow> string" where
  "joinBar [] = []"
| "joinBar [x] = x"
| "joinBar (x # y # ys) = x @ ''|'' @ joinBar (y # ys)"

definition tasksKey :: "client \<Rightarrow> string" where
  "tasksKey c = joinBar (map taskStr (tasks c))"

definition sameSig :: "client \<Rightarrow> client \<Rightarrow> bool" where
  "sameSig a b = (dataname a = dataname b \<and> tasksKey a = tasksKey b)"

subsection \<open>Homogeneous-group averaging of encoder deltas\<close>

text \<open>The inner loop: \<^verbatim>\<open>end\<close> moves right while the client at \<^verbatim>\<open>end\<close> has the signature
  of its left neighbour.\<close>

function runEnd :: "client list \<Rightarrow> nat \<Rightarrow> nat" where
  "runEnd clients e =
     (if e < length clients \<and> sameSig (clients ! e) (clients ! (e - 1))
      then runEnd clients (e + 1) else e)"
  by pat_completeness auto
termination
  by (relation "measure (\<lambda>(clients, e). length clients - e)") auto

declare runEnd.simps [simp del]

lemma runEnd_ge: "e \<le> runEnd clients e"
proof (induction clients e rule: runEnd.induct)
  case (1 clients e)
  show ?case
  proof (cases "e < length clients \<and> sameSig (clients ! e) (clients ! (e - 1))")
    case True
    with 1 have "e + 1 \<le> runEnd clients (e + 1)" by simp
    with True show ?thesis by (subst runEnd.simps) simp
  next
    case False
    then show ?thesis by (subst runEnd.simps) auto
  qed
qed

text \<open>
  The outer loop. \<^verbatim>\<open>tf.addN(deltas.slice(start, end)).div(end - start)\<close> is the average of
  the run; then every \<^verbatim>\<open>deltas[i]\<close> of the run is disposed and overwritten, which fails on
  an index beyond the array (\<^verbatim>\<open>deltas[i].dispose()\<close> on \<^verbatim>\<open>undefined\<close>).
\<close>

function homoLoop :: "client list \<Rightarrow> real list list \<Rightarrow> nat \<Rightarrow> error + real list list" where
  "homoLoop clients deltas start =
     (if start < length clients then
        (let e = runEnd clients (start + 1) in
         bindE (addN (take (e - start) (drop start deltas))) (\<lambda>s.
           let avg = map (\<lambda>x. x / real (e - start)) s in
           if e > length deltas then Inl TypeError
           else homoLoop clients (fold (\<lambda>i ds. ds[i := avg]) [start..<e] deltas) e))
      else Inr deltas)"
  by pat_completeness auto
termination
proof (relation "measure (\<lambda>(clients, deltas, start). length clients - start)")
  show "wf (measure (\<lambda>(clients, deltas, start). length clients - start))" by simp
next
  fix clients :: "client list" and deltas :: "real list list" and start x xa xb
  assume "start < length clients" and x: "x = runEnd clients (start + 1)"
  moreover have "start + 1 \<le> runEnd clients (start + 1)" by (rule runEnd_ge)
  ultimately show "((clients, fold (\<lambda>i ds. ds[i := xb]) [start..<x] deltas, x), clients, deltas, start)
       \<in> measure (\<lambda>(clients, deltas, start). length clients - start)"
    by simp
qed

declare homoLoop.simps [simp del]

definition homoAverageEncoderDeltasInPlace ::
  "real list list \<Rightarrow> client list \<Rightarrow> error + real list list" where
  "homoAverageEncoderDeltasInPlace deltas clients = homoLoop clients deltas 0"

subsection \<open>The global conflict-averse delta\<close>

text \<open>
  \<^verbatim>\<open>getCaDelta\<close>: \<^verbatim>\<open>tf.stack\<close> needs at least one delta and deltas of one length. \<open>GG\<close> is the
  Gram matrix of the deltas, \<open>gw\<close> their combination with the solver's weights, and the
  result is \<open>(mean + lambda * gw) / (1 + alpha\<^sup>2)\<close>. The tensors are idealised, and with
  them the solver call between two tensor computations: it is the exact reading.
\<close>

definition getCaDelta :: "real list list \<Rightarrow> real \<Rightarrow> error + real list" where
  "getCaDelta flattenDeltaList alpha =
     (if flattenDeltaList = [] \<or> \<not> sameLengths flattenDeltaList then Inl TFError
      else
        let N = length flattenDeltaList;
            d = length (hd flattenDeltaList);
            GG = map (\<lambda>gi. map (\<lambda>gj. dotList gi gj) flattenDeltaList) flattenDeltaList;
            g0Norm = sqrt (sum_list (concat GG) / real (N * N) + EPS);
            c = alpha * g0Norm + EPS;
            ww = solveSimplexProjectedGD_exact GG c 500 (1 / 10 ^ 9);
            gw = map (\<lambda>k. sum_list (map2 (\<lambda>g w. g ! k * w) flattenDeltaList ww)) [0..<d];
            lambda = c / (norm2 gw + EPS);
            g = map (\<lambda>k. sum_list (map (\<lambda>g. g ! k) flattenDeltaList) / real N + gw ! k * lambda) [0..<d]
        in Inr (map (\<lambda>x. x / (1 + alpha * alpha)) g))"

text \<open>The plain elementwise mean of the clients' deltas, as the specification words it.\<close>

definition plainMean :: "real list list \<Rightarrow> real list" where
  "plainMean ds = map (\<lambda>k. sum_list (map (\<lambda>g. g ! k) ds) / real (length ds)) [0..<length (hd ds)]"

subsection \<open>Inter-client diagnostics\<close>

record InterClientDiag =
  meanDeltaNorm :: real
  meanClientDeltaNorm :: real
  meanDistToMean :: real
  meanCosine :: real
  fracNegativeCosine :: real

definition cosine :: "real list \<Rightarrow> real list \<Rightarrow> real" where
  "cosine a b = dotList a b / ((norm2 a + EPS) * (norm2 b + EPS))"

text \<open>
  \<^verbatim>\<open>xs[i]\<close> on an array is \<^verbatim>\<open>undefined\<close> beyond its length. \<^verbatim>\<open>pick(undefined, keys)\<close> reads
  \<^verbatim>\<open>m[k]\<close> and fails at the first key; without keys it returns the empty object.
\<close>

definition wmAt :: "'a list \<Rightarrow> nat \<Rightarrow> 'a option" where
  "wmAt xs i = (if i < length xs then Some (xs ! i) else None)"

definition pickU :: "WeightMap option \<Rightarrow> string list \<Rightarrow> error + WeightMap" where
  "pickU m keys =
     (case m of
        None \<Rightarrow> (if keys = [] then Inr [] else Inl TypeError)
      | Some w \<Rightarrow> Inr (pick w keys))"

text \<open>The flattened encoder delta \<open>cur - last\<close> of client \<open>i\<close>, and the pair of it with the
  flattened \<open>last\<close>.\<close>

definition encoderDelta ::
  "WeightMap list \<Rightarrow> WeightMap list \<Rightarrow> string list \<Rightarrow> nat \<Rightarrow> error + real list" where
  "encoderDelta saveCkpt lastCkpt encKeys i =
     bindE (pickU (wmAt saveCkpt i) encKeys) (\<lambda>cur.
     bindE (pickU (wmAt lastCkpt i) encKeys) (\<lambda>lst.
     bindE (deltaDict cur lst encKeys) (\<lambda>d.
     flatten d encKeys)))"

definition encoderDeltaLast ::
  "WeightMap list \<Rightarrow> WeightMap list \<Rightarrow> string list \<Rightarrow> nat \<Rightarrow> error + real list \<times> real list" where
  "encoderDeltaLast saveCkpt lastCkpt encKeys i =
     bindE (pickU (wmAt saveCkpt i) encKeys) (\<lambda>cur.
     bindE (pickU (wmAt lastCkpt i) encKeys) (\<lambda>lst.
     bindE (deltaDict cur lst encKeys) (\<lambda>d.
     bindE (flatten d encKeys) (\<lambda>fd.
     bindE (flatten lst encKeys) (\<lambda>fl. Inr (fd, fl))))))"

definition computeInterClientDiagnostics ::
  "client list \<Rightarrow> WeightMap list \<Rightarrow> WeightMap list \<Rightarrow> error + InterClientDiag" where
  "computeInterClientDiagnostics clients saveCkpt lastCkpt =
     (let N = length clients in
      if N < 2 then
        Inr \<lparr>meanDeltaNorm = 0, meanClientDeltaNorm = 0, meanDistToMean = 0,
             meanCosine = 1, fracNegativeCosine = 0\<rparr>
      else
        bindE (nthE saveCkpt 0) (\<lambda>s0.
        let encKeys = getEncoderKeys (map fst s0) in
        bindE (mapE (encoderDelta saveCkpt lastCkpt encKeys) [0..<N]) (\<lambda>deltas.
        bindE (addN deltas) (\<lambda>total.
        let meanDelta = map (\<lambda>x. x / real N) total;
            sumClientNorm = sum_list (map norm2 deltas);
            sumDistToMean = sum_list (map (\<lambda>d. norm2 (map2 (-) d meanDelta)) deltas);
            cs = concat (map (\<lambda>i. map (\<lambda>j. cosine (deltas ! i) (deltas ! j)) [i + 1..<N]) [0..<N]);
            pairs = length cs;
            sumCos = sum_list cs;
            negCount = length (filter (\<lambda>c. c < 0) cs)
        in Inr \<lparr>meanDeltaNorm = norm2 meanDelta,
                meanClientDeltaNorm = sumClientNorm / real N,
                meanDistToMean = sumDistToMean / real N,
                meanCosine = (if pairs > 0 then sumCos / real pairs else 1),
                fracNegativeCosine = (if pairs > 0 then real negCount / real pairs else 0)\<rparr>))))"

section \<open>Hyperweight: the learnable aggregation policies\<close>

text \<open>
  \<^verbatim>\<open>HyperweightEncoder\<close> holds one scalar \<open>alpha\<close> per client and an SGD optimizer with a
  learning rate; \<^verbatim>\<open>HyperweightDecoder\<close> holds, per layer name, a vector \<open>beta\<close> of length \<open>K\<close>
  (a JavaScript \<^verbatim>\<open>Map\<close> in insertion order), created lazily at the first \<^verbatim>\<open>forward\<close>. Its
  \<^verbatim>\<open>trainableVariables\<close> are the vectors of that map in order.
\<close>

record HyperweightEncoder =
  alphaVar :: "real list"
  encLr :: real

record HyperweightDecoder =
  layerToBetaVar :: "(string \<times> real list) list"
  decK :: nat
  initialized :: bool
  initBeta :: real
  decLr :: real

record EncCache =
  cEncKeys :: "string list"
  cEncShapes :: "nat list list"
  cLastEnc :: "real list list"
  cLocalDelta :: "real list list"
  cGlobalDelta :: "real list"

record DecCache =
  cRelKeys :: "string list"
  cTaskOfBlock :: "TaskName list"
  cClientOfBlock :: "nat list"
  cLastBlocks :: "WeightMap list"
  cDeltaBlocks :: "WeightMap list"

record Cache =
  cacheEnc :: "EncCache option"
  cacheDec :: "DecCache option"

text \<open>Every field of \<^verbatim>\<open>Hyperweight\<close> is optional in the source.\<close>

record Hyperweight =
  enc :: "HyperweightEncoder option"
  dec :: "HyperweightDecoder option"
  cache :: "Cache option"

definition emptyCache :: Cache where
  "emptyCache = \<lparr>cacheEnc = None, cacheDec = None\<rparr>"

text \<open>\<^verbatim>\<open>hyperweight._cache ??= {}\<close>\<close>

definition ensureCache :: "Hyperweight \<Rightarrow> Hyperweight" where
  "ensureCache h = (case cache h of None \<Rightarrow> h\<lparr>cache := Some emptyCache\<rparr> | Some _ \<Rightarrow> h)"

definition theCache :: "Hyperweight \<Rightarrow> Cache" where
  "theCache h = (case cache h of None \<Rightarrow> emptyCache | Some c \<Rightarrow> c)"

definition clip01 :: "real \<Rightarrow> real" where
  "clip01 x = max 0 (min 1 x)"

text \<open>
  \<^verbatim>\<open>HyperweightEncoder.forward\<close>: \<open>out\<^sub>i = last\<^sub>i + delta\<^sub>i + clip(alpha\<^sub>i) * globalDelta\<close> for
  every entry of \<^verbatim>\<open>flattenLast\<close>.
\<close>

definition encForwardOne ::
  "real list \<Rightarrow> real list list \<Rightarrow> real list list \<Rightarrow> real list \<Rightarrow> nat \<Rightarrow> error + real list" where
  "encForwardOne alpha flattenLast flattenDelta flattenDeltaUpdate i =
     (case wmAt flattenDelta i of
        None \<Rightarrow> Inl TFError
      | Some d \<Rightarrow>
          if i < length alpha
          then bindE (vadd (flattenLast ! i) d) (\<lambda>s.
                 vadd s (map (\<lambda>u. u * clip01 (alpha ! i)) flattenDeltaUpdate))
          else Inl TFError)"

definition encForward ::
  "real list \<Rightarrow> real list list \<Rightarrow> real list list \<Rightarrow> real list \<Rightarrow> error + real list list" where
  "encForward alpha flattenLast flattenDelta flattenDeltaUpdate =
     mapE (encForwardOne alpha flattenLast flattenDelta flattenDeltaUpdate) [0..<length flattenLast]"

text \<open>\<^verbatim>\<open>keyToLayerName\<close>: the key without its last \<^verbatim>\<open>/\<close>-separated part; a key without a slash
  is its own layer name.\<close>

definition keyToLayerName :: "string \<Rightarrow> string" where
  "keyToLayerName relKey =
     (if CHR ''/'' \<in> set relKey
      then rev (tl (dropWhile (\<lambda>c. c \<noteq> CHR ''/'') (rev relKey)))
      else relKey)"

definition initFromRelKeys :: "HyperweightDecoder \<Rightarrow> string list \<Rightarrow> HyperweightDecoder" where
  "initFromRelKeys d relKeys =
     (if initialized d then d
      else
        let layerNames = sort (remdups (map keyToLayerName relKeys)) in
        d\<lparr>layerToBetaVar :=
             fold (\<lambda>layer m. AList.update layer (replicate (decK d) (initBeta d)) m)
               layerNames (layerToBetaVar d),
          initialized := True\<rparr>)"

text \<open>\<^verbatim>\<open>layerToKeys\<close>: the relative keys grouped by layer name, layers in order of first
  occurrence, keys in their order.\<close>

definition layerToKeys :: "string list \<Rightarrow> (string \<times> string list) list" where
  "layerToKeys relKeys =
     fold (\<lambda>rk m. let layer = keyToLayerName rk in
                   AList.update layer ((case map_of m layer of None \<Rightarrow> [] | Some arr \<Rightarrow> arr) @ [rk]) m)
       relKeys []"

definition softmax :: "real list \<Rightarrow> real list" where
  "softmax xs = map (\<lambda>x. exp x / sum_list (map exp xs)) xs"

text \<open>The first tensor found under \<open>rk\<close> in the delta or last blocks, in block order.\<close>

fun findRef :: "WeightMap list \<Rightarrow> WeightMap list \<Rightarrow> string \<Rightarrow> nat list \<Rightarrow> error + tensor option" where
  "findRef deltaBlocks lastBlocks rk [] = Inr None"
| "findRef deltaBlocks lastBlocks rk (j # js) =
     (case wmAt deltaBlocks j of
        None \<Rightarrow> Inl TypeError
      | Some db \<Rightarrow>
          (case map_of db rk of
             Some t \<Rightarrow> Inr (Some t)
           | None \<Rightarrow>
               (case map_of (lastBlocks ! j) rk of
                  Some t \<Rightarrow> Inr (Some t)
                | None \<Rightarrow> findRef deltaBlocks lastBlocks rk js)))"

text \<open>The rows of \<^verbatim>\<open>crossDeltaFlat\<close>: the flattened delta of every block, zeros for a block
  without the key; \<^verbatim>\<open>tf.stack\<close> needs rows of one length.\<close>

definition crossRows :: "WeightMap list \<Rightarrow> string \<Rightarrow> tensor \<Rightarrow> nat \<Rightarrow> error + real list list" where
  "crossRows deltaBlocks rk ref K =
     bindE (mapE (\<lambda>j. case wmAt deltaBlocks j of
                         None \<Rightarrow> Inl TypeError
                       | Some db \<Rightarrow> Inr (case map_of db rk of
                                          Some t \<Rightarrow> vals t
                                        | None \<Rightarrow> replicate (length (vals ref)) 0))
                  [0..<K])
       (\<lambda>rows. if sameLengths rows then Inr rows else Inl TFError)"

text \<open>Scaled dot-product attention of the query \<open>q\<close> against the rows (keys and values).\<close>

definition attend :: "real list list \<Rightarrow> real list \<Rightarrow> real list" where
  "attend rows q =
     (let D = length (hd rows);
          scale = 1 / sqrt (real D + 1 / 10 ^ 8);
          attn = softmax (map (\<lambda>r. dotList q r * scale) rows)
      in map (\<lambda>k. sum_list (map2 (\<lambda>a r. a * r ! k) attn rows)) [0..<D])"

text \<open>The new parameter of block \<open>i\<close> under key \<open>rk\<close>, when the block has a last value.\<close>

definition decBlockParam ::
  "real list \<Rightarrow> WeightMap list \<Rightarrow> WeightMap list \<Rightarrow> string \<Rightarrow> tensor \<Rightarrow> real list list \<Rightarrow> nat
     \<Rightarrow> error + tensor option" where
  "decBlockParam layerBeta lastBlocks deltaBlocks rk ref rows i =
     (case map_of (lastBlocks ! i) rk of
        None \<Rightarrow> Inr None
      | Some base \<Rightarrow>
          let selfDelta = (case map_of (deltaBlocks ! i) rk of
                             Some t \<Rightarrow> t
                           | None \<Rightarrow> \<lparr>shape = shape ref, vals = replicate (length (vals ref)) 0\<rparr>);
              outDelta = attend rows (vals selfDelta)
          in if i < length layerBeta
             then bindE (tbin (+) base
                           \<lparr>shape = shape selfDelta,
                            vals = map2 (+) (vals selfDelta)
                                     (map (\<lambda>x. x * layerBeta ! i) outDelta)\<rparr>)
                    (\<lambda>t. Inr (Some t))
             else Inl TFError)"

definition decKey ::
  "real list \<Rightarrow> WeightMap list \<Rightarrow> WeightMap list \<Rightarrow> string \<Rightarrow> WeightMap list \<Rightarrow> error + WeightMap list" where
  "decKey layerBeta lastBlocks deltaBlocks rk out =
     (let K = length lastBlocks in
      bindE (findRef deltaBlocks lastBlocks rk [0..<K]) (\<lambda>r.
        case r of
          None \<Rightarrow> Inr out
        | Some ref \<Rightarrow>
            bindE (crossRows deltaBlocks rk ref K) (\<lambda>rows.
            bindE (mapE (decBlockParam layerBeta lastBlocks deltaBlocks rk ref rows) [0..<K]) (\<lambda>ps.
              Inr (map2 (\<lambda>m p. case p of None \<Rightarrow> m | Some t \<Rightarrow> AList.update rk t m) out ps)))))"

fun decKeys ::
  "real list \<Rightarrow> WeightMap list \<Rightarrow> WeightMap list \<Rightarrow> string list \<Rightarrow> WeightMap list \<Rightarrow> error + WeightMap list" where
  "decKeys layerBeta lastBlocks deltaBlocks [] out = Inr out"
| "decKeys layerBeta lastBlocks deltaBlocks (rk # rks) out =
     bindE (decKey layerBeta lastBlocks deltaBlocks rk out)
       (decKeys layerBeta lastBlocks deltaBlocks rks)"

fun decLayers ::
  "(string \<times> real list) list \<Rightarrow> WeightMap list \<Rightarrow> WeightMap list \<Rightarrow> (string \<times> string list) list
     \<Rightarrow> WeightMap list \<Rightarrow> error + WeightMap list" where
  "decLayers betas lastBlocks deltaBlocks [] out = Inr out"
| "decLayers betas lastBlocks deltaBlocks ((layerName, keys) # rest) out =
     (case map_of betas layerName of
        None \<Rightarrow> decLayers betas lastBlocks deltaBlocks rest out
      | Some betaVar \<Rightarrow>
          bindE (decKeys (map clip01 betaVar) lastBlocks deltaBlocks keys out)
            (decLayers betas lastBlocks deltaBlocks rest))"

text \<open>
  \<^verbatim>\<open>HyperweightDecoder.forward\<close> with the variables \<open>betas\<close>: the block count is checked
  first. The lazy creation of the variables is a separate step (\<open>initFromRelKeys\<close>) that
  the callers run before, since it changes the policy and survives a later failure.
\<close>

definition decForward ::
  "HyperweightDecoder \<Rightarrow> (string \<times> real list) list \<Rightarrow> WeightMap list \<Rightarrow> WeightMap list
     \<Rightarrow> string list \<Rightarrow> error + WeightMap list" where
  "decForward d betas lastBlocks deltaBlocks relKeys =
     (let K = length lastBlocks in
      if K \<noteq> decK d then Inl (WrongBlockCount (decK d) K)
      else decLayers betas lastBlocks deltaBlocks (layerToKeys relKeys) (replicate K []))"

definition decInit :: "HyperweightDecoder \<Rightarrow> nat \<Rightarrow> string list \<Rightarrow> HyperweightDecoder" where
  "decInit d K relKeys = (if K \<noteq> decK d then d else initFromRelKeys d relKeys)"

section \<open>Aggregate\<close>

datatype EncoderAgg = EncNone | EncFedavg | ConflictAverse

datatype DecoderAgg = DecNone | DecFedavg | CrossAttention

text \<open>
  \<^verbatim>\<open>aggregate\<close> mutates three things: the clients' live models, the staged checkpoints
  \<^verbatim>\<open>update\<close> (clones of \<^verbatim>\<open>saveCkpt\<close>) and the Hyperweight object. The model passes them
  along as a state and returns, with the final state, how the call ended: it ran to its
  end, it left by the early \<^verbatim>\<open>return\<close>, or it threw. A throw keeps the state reached.
\<close>

datatype outcome = Done | Returned | Threw error

record agg_state =
  live :: "client list"
  staged :: "WeightMap list"
  hyper :: "Hyperweight option"

definition tryE :: "error + 'a \<Rightarrow> ('a \<Rightarrow> 's \<Rightarrow> outcome \<times> 's) \<Rightarrow> 's \<Rightarrow> outcome \<times> 's" where
  "tryE m k s = (case m of Inl e \<Rightarrow> (Threw e, s) | Inr x \<Rightarrow> k x s)"

definition andThen :: "('s \<Rightarrow> outcome \<times> 's) \<Rightarrow> ('s \<Rightarrow> outcome \<times> 's) \<Rightarrow> 's \<Rightarrow> outcome \<times> 's" where
  "andThen f g s = (case f s of (Done, s') \<Rightarrow> g s' | r \<Rightarrow> r)"

fun forEach :: "('a \<Rightarrow> 's \<Rightarrow> outcome \<times> 's) \<Rightarrow> 'a list \<Rightarrow> 's \<Rightarrow> outcome \<times> 's" where
  "forEach f [] s = (Done, s)"
| "forEach f (x # xs) s = (case f x s of (Done, s') \<Rightarrow> forEach f xs s' | r \<Rightarrow> r)"

text \<open>\<^verbatim>\<open>tf.stack(ts).mean(0)\<close>: the elementwise mean of tensors of one shape.\<close>

definition meanTensor :: "tensor list \<Rightarrow> error + tensor" where
  "meanTensor ts =
     (if ts = [] \<or> \<not> list_all (\<lambda>t. shape t = shape (hd ts)) ts then Inl TFError
      else bindE (addN (map vals ts)) (\<lambda>total.
             Inr \<lparr>shape = shape (hd ts), vals = map (\<lambda>x. x / real (length ts)) total\<rparr>))"

fun meanSoup_loop :: "WeightMap list \<Rightarrow> string list \<Rightarrow> WeightMap \<Rightarrow> error + WeightMap" where
  "meanSoup_loop dicts [] out = Inr out"
| "meanSoup_loop dicts (k # ks) out =
     bindE (mapE (\<lambda>d. case map_of d k of None \<Rightarrow> Inl TFError | Some t \<Rightarrow> Inr t) dicts) (\<lambda>ts.
     bindE (meanTensor ts) (\<lambda>m.
     meanSoup_loop dicts ks (AList.update k m out)))"

definition meanSoup :: "WeightMap list \<Rightarrow> string list \<Rightarrow> error + WeightMap" where
  "meanSoup dicts keys = meanSoup_loop dicts keys []"

text \<open>
  \<^verbatim>\<open>for (const k of keys) update[i][k] = src[k]\<close> (the source map holds every key), on the
  staged checkpoint of client \<open>i\<close>; \<^verbatim>\<open>update[i]\<close> is \<^verbatim>\<open>undefined\<close> beyond the list.
\<close>

definition assignFrom :: "WeightMap \<Rightarrow> string list \<Rightarrow> WeightMap \<Rightarrow> WeightMap" where
  "assignFrom src keys dst =
     fold (\<lambda>k m. case map_of src k of None \<Rightarrow> m | Some t \<Rightarrow> AList.update k t m) keys dst"

definition stageWrite :: "nat \<Rightarrow> string list \<Rightarrow> WeightMap \<Rightarrow> agg_state \<Rightarrow> outcome \<times> agg_state" where
  "stageWrite i keys src st =
     (if keys = [] then (Done, st)
      else if i < length (staged st)
      then (Done, st\<lparr>staged := (staged st)[i := assignFrom src keys (staged st ! i)]\<rparr>)
      else (Threw TypeError, st))"

text \<open>\<^verbatim>\<open>m[fk] = src[rk]\<close> for pairs of a full key and a relative key.\<close>

definition stageWriteRel ::
  "nat \<Rightarrow> (string \<times> string) list \<Rightarrow> WeightMap \<Rightarrow> agg_state \<Rightarrow> outcome \<times> agg_state" where
  "stageWriteRel ci pairs src st =
     (if pairs = [] then (Done, st)
      else if ci < length (staged st)
      then (Done, st\<lparr>staged := (staged st)[ci :=
              fold (\<lambda>(fk, rk) m. case map_of src rk of None \<Rightarrow> m | Some t \<Rightarrow> AList.update fk t m)
                pairs (staged st ! ci)]\<rparr>)
      else (Threw TypeError, st))"

definition fullKeys :: "string list \<Rightarrow> TaskName \<Rightarrow> error + (string \<times> string) list" where
  "fullKeys relKeys task =
     mapE (\<lambda>rk. bindE (fromRelativeDecoderKey rk task) (\<lambda>fk. Inr (fk, rk))) relKeys"

subsection \<open>Encoder strategies\<close>

definition encFedavg :: "WeightMap list \<Rightarrow> nat \<Rightarrow> string list \<Rightarrow> agg_state \<Rightarrow> outcome \<times> agg_state" where
  "encFedavg saveCkpt N encKeys =
     tryE (meanSoup (map (\<lambda>m. pick m encKeys) saveCkpt) encKeys) (\<lambda>encAvg.
       forEach (\<lambda>i. stageWrite i encKeys encAvg) [0..<N])"

text \<open>
  Conflict-averse, after the deltas: with an encoder policy the cache entry is replaced
  first, then \<^verbatim>\<open>forward\<close> personalises the new encoder; without one the global delta is
  added to every client's last encoder.
\<close>

definition caApply ::
  "nat \<Rightarrow> string list \<Rightarrow> nat list list \<Rightarrow> real list list \<Rightarrow> real list list \<Rightarrow> real list
     \<Rightarrow> agg_state \<Rightarrow> outcome \<times> agg_state" where
  "caApply N encKeys encShapes flattenLast flattenDelta globalDelta st =
     (case hyper st of
        None \<Rightarrow> (Threw TypeError, st)
      | Some h \<Rightarrow>
          (case enc h of
             Some e \<Rightarrow>
               tryE (encForward (alphaVar e) flattenLast flattenDelta globalDelta) (\<lambda>flattenNew.
                 forEach (\<lambda>i. tryE (unflatten (flattenNew ! i) encKeys encShapes)
                                 (stageWrite i encKeys)) [0..<N])
               (st\<lparr>hyper := Some (h\<lparr>cache := Some ((theCache h)\<lparr>cacheEnc :=
                      Some \<lparr>cEncKeys = encKeys, cEncShapes = encShapes, cLastEnc = flattenLast,
                            cLocalDelta = flattenDelta, cGlobalDelta = globalDelta\<rparr>\<rparr>)\<rparr>)\<rparr>)
           | None \<Rightarrow>
               forEach (\<lambda>i. tryE (vadd (flattenLast ! i) globalDelta) (\<lambda>newVec.
                              tryE (unflatten newVec encKeys encShapes) (stageWrite i encKeys)))
                 [0..<N] st))"

definition encCA ::
  "client list \<Rightarrow> WeightMap list \<Rightarrow> WeightMap list \<Rightarrow> real \<Rightarrow> string list \<Rightarrow> nat list list
     \<Rightarrow> agg_state \<Rightarrow> outcome \<times> agg_state" where
  "encCA clients saveCkpt lastCkpt caC encKeys encShapes =
     tryE (mapE (encoderDeltaLast saveCkpt lastCkpt encKeys) [0..<length clients]) (\<lambda>pairs.
     tryE (getCaDelta (map fst pairs) caC) (\<lambda>globalDelta.
     tryE (homoAverageEncoderDeltasInPlace (map fst pairs) clients) (\<lambda>homo.
       caApply (length clients) encKeys encShapes (map snd pairs) homo globalDelta)))"

definition encoderStage ::
  "client list \<Rightarrow> WeightMap list \<Rightarrow> WeightMap list \<Rightarrow> EncoderAgg \<Rightarrow> real \<Rightarrow> WeightMap
     \<Rightarrow> agg_state \<Rightarrow> outcome \<times> agg_state" where
  "encoderStage clients saveCkpt lastCkpt encoderAgg caC s0 st =
     (let encKeys = getEncoderKeys (map fst s0);
          encShapes = map (\<lambda>k. case map_of s0 k of None \<Rightarrow> [] | Some t \<Rightarrow> shape t) encKeys
      in case encoderAgg of
           EncNone \<Rightarrow> (Done, st)
         | EncFedavg \<Rightarrow> encFedavg saveCkpt (length clients) encKeys st
         | ConflictAverse \<Rightarrow> encCA clients saveCkpt lastCkpt caC encKeys encShapes st)"

subsection \<open>Decoder strategies\<close>

text \<open>The blocks \<open>(clientIdx, task)\<close> in client and task order, each with the relative
  keys of its decoder weights.\<close>

definition blocksOfClient ::
  "client list \<Rightarrow> WeightMap list \<Rightarrow> nat \<Rightarrow> error + ((nat \<times> TaskName) \<times> string list) list" where
  "blocksOfClient clients saveCkpt i =
     (case wmAt saveCkpt i of
        None \<Rightarrow> (if tasks (clients ! i) = [] then Inr [] else Inl TypeError)
      | Some m \<Rightarrow>
          mapE (\<lambda>task.
                  bindE (mapE (\<lambda>fk. toRelativeDecoderKey fk task)
                           (getDecoderKeysForTask (map fst m) task))
                    (\<lambda>rels. Inr ((i, task), rels)))
            (tasks (clients ! i)))"

definition blocksOf ::
  "client list \<Rightarrow> WeightMap list \<Rightarrow> error + ((nat \<times> TaskName) \<times> string list) list" where
  "blocksOf clients saveCkpt =
     bindE (mapE (blocksOfClient clients saveCkpt) [0..<length clients]) (\<lambda>bs. Inr (concat bs))"

text \<open>\<^verbatim>\<open>d[rk] = m[fromRelativeDecoderKey(rk, task)]\<close>; a key the checkpoint lacks stays
  \<^verbatim>\<open>undefined\<close>.\<close>

fun blockDict :: "WeightMap \<Rightarrow> TaskName \<Rightarrow> string list \<Rightarrow> WeightMap \<Rightarrow> error + WeightMap" where
  "blockDict m task [] d = Inr d"
| "blockDict m task (rk # rks) d =
     bindE (fromRelativeDecoderKey rk task) (\<lambda>fk.
       blockDict m task rks (case map_of m fk of None \<Rightarrow> d | Some t \<Rightarrow> AList.update rk t d))"

definition decFedavg ::
  "WeightMap list \<Rightarrow> (nat \<times> TaskName) list \<Rightarrow> agg_state \<Rightarrow> outcome \<times> agg_state" where
  "decFedavg saveCkpt blocks st =
     (if blocks = [] then (Returned, st)
      else
        let ci0 = fst (hd blocks); t0 = snd (hd blocks) in
        tryE (mapE (\<lambda>fk. toRelativeDecoderKey fk t0)
                (getDecoderKeysForTask (map fst (saveCkpt ! ci0)) t0)) (\<lambda>rels0.
        let relKeys0 = sort rels0 in
        tryE (mapE (\<lambda>b. blockDict (saveCkpt ! fst b) (snd b) relKeys0 []) blocks) (\<lambda>dicts.
        tryE (meanSoup dicts relKeys0) (\<lambda>avg.
          forEach (\<lambda>b. tryE (fullKeys relKeys0 (snd b)) (\<lambda>pairs. stageWriteRel (fst b) pairs avg))
            blocks))) st)"

text \<open>The last value and the delta \<open>cur - last\<close> of one block, for the keys both
  checkpoints hold.\<close>

fun blockLastDelta ::
  "WeightMap option \<Rightarrow> WeightMap \<Rightarrow> TaskName \<Rightarrow> string list \<Rightarrow> WeightMap \<times> WeightMap
     \<Rightarrow> error + WeightMap \<times> WeightMap" where
  "blockLastDelta lastM curM task [] acc = Inr acc"
| "blockLastDelta lastM curM task (rk # rks) acc =
     bindE (fromRelativeDecoderKey rk task) (\<lambda>fullKey.
     bindE (getE lastM) (\<lambda>lm.
       case (map_of lm fullKey, map_of curM fullKey) of
         (Some lastT, Some curT) \<Rightarrow>
           bindE (tsub curT lastT) (\<lambda>d.
             blockLastDelta lastM curM task rks
               (AList.update rk lastT (fst acc), AList.update rk d (snd acc)))
       | _ \<Rightarrow> blockLastDelta lastM curM task rks acc))"

definition decCross ::
  "WeightMap list \<Rightarrow> WeightMap list \<Rightarrow> (nat \<times> TaskName) list \<Rightarrow> string list
     \<Rightarrow> agg_state \<Rightarrow> outcome \<times> agg_state" where
  "decCross saveCkpt lastCkpt blocks relKeys st =
     (case hyper st of
        None \<Rightarrow> (Threw TypeError, st)
      | Some h \<Rightarrow>
          (case dec h of
             None \<Rightarrow> (Threw UnsupportedStrategy, st)
           | Some d \<Rightarrow>
               tryE (mapE (\<lambda>b. blockLastDelta (wmAt lastCkpt (fst b)) (saveCkpt ! fst b) (snd b)
                                  relKeys ([], [])) blocks) (\<lambda>lds s.
                 let lastBlocks = map fst lds;
                     deltaBlocks = map snd lds;
                     c = \<lparr>cRelKeys = relKeys, cTaskOfBlock = map snd blocks,
                          cClientOfBlock = map fst blocks, cLastBlocks = lastBlocks,
                          cDeltaBlocks = deltaBlocks\<rparr>;
                     d' = decInit d (length lastBlocks) relKeys
                 in tryE (decForward d' (layerToBetaVar d') lastBlocks deltaBlocks relKeys) (\<lambda>newBlocks.
                      forEach (\<lambda>bi. tryE (fullKeys (map fst (newBlocks ! bi)) (snd (blocks ! bi)))
                                      (\<lambda>pairs. stageWriteRel (fst (blocks ! bi)) pairs (newBlocks ! bi)))
                        [0..<length blocks])
                    (s\<lparr>hyper := Some (h\<lparr>cache := Some ((theCache h)\<lparr>cacheDec := Some c\<rparr>),
                                        dec := Some d'\<rparr>)\<rparr>)) st))"

definition decoderStage ::
  "client list \<Rightarrow> WeightMap list \<Rightarrow> WeightMap list \<Rightarrow> DecoderAgg \<Rightarrow> agg_state \<Rightarrow> outcome \<times> agg_state" where
  "decoderStage clients saveCkpt lastCkpt decoderAgg st =
     (case decoderAgg of
        DecNone \<Rightarrow> (Done, st)
      | DecFedavg \<Rightarrow>
          tryE (blocksOf clients saveCkpt) (\<lambda>bs. decFedavg saveCkpt (map fst bs)) st
      | CrossAttention \<Rightarrow>
          tryE (blocksOf clients saveCkpt) (\<lambda>bs.
            decCross saveCkpt lastCkpt (map fst bs) (sort (remdups (concat (map snd bs))))) st)"

subsection \<open>Loading the staged checkpoints\<close>

text \<open>
  \<^verbatim>\<open>loadCheckpoint\<close>: every weight of the model takes the tensor stored under its canonical
  name, or keeps its current one; \<^verbatim>\<open>setWeights\<close> accepts tensors of the weights' shapes.
\<close>

definition loadCheckpoint :: "WeightMap \<Rightarrow> WeightMap option \<Rightarrow> error + WeightMap" where
  "loadCheckpoint model ckpt =
     (if model = [] then Inr []
      else bindE (getE ckpt) (\<lambda>c.
        let next = map (\<lambda>(k, cur). (k, case map_of c (canonicalKey k) of None \<Rightarrow> cur | Some t \<Rightarrow> t)) model
        in if list_all2 (\<lambda>n cur. shape (snd n) = shape (snd cur)) next model then Inr next
           else Inl TFError))"

definition loadStage :: "nat \<Rightarrow> agg_state \<Rightarrow> outcome \<times> agg_state" where
  "loadStage N =
     forEach (\<lambda>i st. tryE (loadCheckpoint (weights (live st ! i)) (wmAt (staged st) i))
                        (\<lambda>w s. (Done, s\<lparr>live := (live s)[i := (live s ! i)\<lparr>weights := w\<rparr>]\<rparr>)) st)
       [0..<N]"

definition aggregate ::
  "client list \<Rightarrow> WeightMap list \<Rightarrow> WeightMap list \<Rightarrow> Hyperweight option \<Rightarrow> EncoderAgg \<Rightarrow> DecoderAgg
     \<Rightarrow> real \<Rightarrow> outcome \<times> agg_state" where
  "aggregate clients saveCkpt lastCkpt hw encoderAgg decoderAgg caC =
     tryE (nthE saveCkpt 0) (\<lambda>s0.
     tryE (getE hw) (\<lambda>h st.
       andThen (encoderStage clients saveCkpt lastCkpt encoderAgg caC s0)
         (andThen (decoderStage clients saveCkpt lastCkpt decoderAgg)
            (loadStage (length clients)))
         (st\<lparr>hyper := Some (ensureCache h)\<rparr>)))
       \<lparr>live = clients, staged = saveCkpt, hyper = hw\<rparr>"

section \<open>The meta-update of the hyperweights\<close>

text \<open>
  \<^verbatim>\<open>updateHyperweight\<close> takes one SGD step per policy on an objective built from the cache of
  the previous \<^verbatim>\<open>aggregate\<close>. The automatic differentiation of the library
  (\<^verbatim>\<open>tf.variableGrads\<close>) is a parameter \<open>vgrad\<close>: \<open>vgrad f v\<close> is the gradient of \<open>f\<close> at the
  vector \<open>v\<close>. The model reports every \<^verbatim>\<open>optimizer.applyGradients\<close> call with the cache it
  consumed.
\<close>

datatype meta_event = EncStep EncCache | DecStep DecCache

definition sgdStep :: "real \<Rightarrow> real list \<Rightarrow> real list \<Rightarrow> real list" where
  "sgdStep lr v g = map2 (\<lambda>a b. a - lr * b) v g"

text \<open>\<open>\<Sum>\<^sub>i \<langle>out\<^sub>i, diff\<^sub>i\<rangle>\<close> over the outputs of \<^verbatim>\<open>forward\<close> on the cached tensors.\<close>

definition encObjective :: "EncCache \<Rightarrow> real list list \<Rightarrow> real list \<Rightarrow> error + real" where
  "encObjective ec flattenDiff al =
     bindE (encForward al (cLastEnc ec) (cLocalDelta ec) (cGlobalDelta ec)) (\<lambda>outs.
     bindE (mapE (\<lambda>i. case wmAt flattenDiff i of
                         None \<Rightarrow> Inl TFError
                       | Some df \<Rightarrow> bindE (vbin (*) (outs ! i) df) (\<lambda>p. Inr (sum_list p)))
              [0..<length outs]) (\<lambda>terms.
     Inr (sum_list terms)))"

definition valueOr0 :: "error + real \<Rightarrow> real" where
  "valueOr0 r = (case r of Inl _ \<Rightarrow> 0 | Inr v \<Rightarrow> v)"

definition updateEnc ::
  "((real list \<Rightarrow> real) \<Rightarrow> real list \<Rightarrow> real list) \<Rightarrow> client list \<Rightarrow> WeightMap list \<Rightarrow> WeightMap list
     \<Rightarrow> Hyperweight \<times> meta_event list \<Rightarrow> outcome \<times> Hyperweight \<times> meta_event list" where
  "updateEnc vgrad clients saveCkpt lastCkpt =
     (\<lambda>(h, evs).
        case (enc h, cacheEnc (theCache h)) of
          (Some e, Some ec) \<Rightarrow>
            tryE (mapE (encoderDelta saveCkpt lastCkpt (cEncKeys ec)) [0..<length clients]) (\<lambda>flattenDiff.
            tryE (encObjective ec flattenDiff (alphaVar e)) (\<lambda>_ (h, evs).
              let g = vgrad (\<lambda>v. valueOr0 (encObjective ec flattenDiff v)) (alphaVar e) in
              (Done, h\<lparr>enc := Some (e\<lparr>alphaVar := sgdStep (encLr e) (alphaVar e) g\<rparr>)\<rparr>,
                     evs @ [EncStep ec]))) (h, evs)
        | _ \<Rightarrow> (Done, h, evs))"

text \<open>The differences \<open>last - cur\<close> of one cached block.\<close>

fun diffBlock ::
  "WeightMap option \<Rightarrow> WeightMap option \<Rightarrow> TaskName \<Rightarrow> string list \<Rightarrow> WeightMap \<Rightarrow> error + WeightMap" where
  "diffBlock lastM curM task [] db = Inr db"
| "diffBlock lastM curM task (rk # rks) db =
     bindE (fromRelativeDecoderKey rk task) (\<lambda>fullKey.
     bindE (getE lastM) (\<lambda>lm.
     bindE (getE curM) (\<lambda>cm.
       case (map_of lm fullKey, map_of cm fullKey) of
         (Some lastT, Some curT) \<Rightarrow>
           bindE (tsub lastT curT) (\<lambda>d. diffBlock lastM curM task rks (AList.update rk d db))
       | _ \<Rightarrow> diffBlock lastM curM task rks db)))"

definition diffBlocksOf :: "DecCache \<Rightarrow> WeightMap list \<Rightarrow> WeightMap list \<Rightarrow> error + WeightMap list" where
  "diffBlocksOf dc saveCkpt lastCkpt =
     mapE (\<lambda>bi. let ci = wmAt (cClientOfBlock dc) bi in
                 diffBlock (case ci of None \<Rightarrow> None | Some c \<Rightarrow> wmAt lastCkpt c)
                           (case ci of None \<Rightarrow> None | Some c \<Rightarrow> wmAt saveCkpt c)
                           (cTaskOfBlock dc ! bi) (cRelKeys dc) [])
       [0..<length (cTaskOfBlock dc)]"

text \<open>\<^verbatim>\<open>tf.sum(a.mul(b))\<close>\<close>

definition tensorDot :: "tensor \<Rightarrow> tensor \<Rightarrow> error + real" where
  "tensorDot a b = bindE (tbin (*) a b) (\<lambda>p. Inr (sum_list (vals p)))"

text \<open>One term \<open>\<langle>out, diff\<rangle>\<close> per block and key that both sides hold (a missing pair adds
  nothing, written as 0); \<^verbatim>\<open>diffBlocks[bi]\<close> is read for every key.\<close>

definition decTerms :: "string list \<Rightarrow> WeightMap list \<Rightarrow> WeightMap list \<Rightarrow> error + real list" where
  "decTerms relKeys outs diffBlocks =
     bindE (mapE (\<lambda>bi.
              mapE (\<lambda>rk. bindE (getE (wmAt diffBlocks bi)) (\<lambda>dm.
                            case (map_of (outs ! bi) rk, map_of dm rk) of
                              (Some outT, Some diffT) \<Rightarrow> tensorDot outT diffT
                            | _ \<Rightarrow> Inr 0))
                relKeys)
            [0..<length outs]) (\<lambda>ts. Inr (concat ts))"

text \<open>The objective as a function of the decoder variables, listed in the order of the
  policy's map.\<close>

definition decObjective ::
  "HyperweightDecoder \<Rightarrow> DecCache \<Rightarrow> WeightMap list \<Rightarrow> real list list \<Rightarrow> error + real" where
  "decObjective d dc diffBlocks vars =
     bindE (decForward d (zip (map fst (layerToBetaVar d)) vars) (cLastBlocks dc) (cDeltaBlocks dc)
              (cRelKeys dc)) (\<lambda>outs.
     bindE (decTerms (cRelKeys dc) outs diffBlocks) (\<lambda>terms.
     Inr (sum_list terms)))"

text \<open>
  \<^verbatim>\<open>tf.variableGrads(f, vars)\<close> rejects an empty variable list. The variable list is read
  before \<^verbatim>\<open>forward\<close> runs inside \<open>f\<close>; \<^verbatim>\<open>forward\<close> may create the variables on the way.
\<close>

definition updateDec ::
  "((real list \<Rightarrow> real) \<Rightarrow> real list \<Rightarrow> real list) \<Rightarrow> WeightMap list \<Rightarrow> WeightMap list
     \<Rightarrow> Hyperweight \<times> meta_event list \<Rightarrow> outcome \<times> Hyperweight \<times> meta_event list" where
  "updateDec vgrad saveCkpt lastCkpt =
     (\<lambda>(h, evs).
        case (dec h, cacheDec (theCache h)) of
          (Some d, Some dc) \<Rightarrow>
            tryE (diffBlocksOf dc saveCkpt lastCkpt) (\<lambda>diffBlocks.
            tryE (if layerToBetaVar d = [] then Inl TFError else Inr ()) (\<lambda>_ (h, evs).
              let d' = decInit d (length (cLastBlocks dc)) (cRelKeys dc);
                  vars = map snd (layerToBetaVar d')
              in tryE (decObjective d' dc diffBlocks vars) (\<lambda>_ (h, evs).
                   let new = map (\<lambda>i. sgdStep (decLr d') (vars ! i)
                                         (vgrad (\<lambda>v. valueOr0 (decObjective d' dc diffBlocks (vars[i := v])))
                                            (vars ! i)))
                               [0..<length vars]
                   in (Done, h\<lparr>dec := Some (d'\<lparr>layerToBetaVar := zip (map fst (layerToBetaVar d')) new\<rparr>)\<rparr>,
                       evs @ [DecStep dc]))
                 (h\<lparr>dec := Some d'\<rparr>, evs))) (h, evs)
        | _ \<Rightarrow> (Done, h, evs))"

definition updateHyperweight ::
  "((real list \<Rightarrow> real) \<Rightarrow> real list \<Rightarrow> real list) \<Rightarrow> client list \<Rightarrow> Hyperweight \<Rightarrow> WeightMap list
     \<Rightarrow> WeightMap list \<Rightarrow> outcome \<times> Hyperweight \<times> meta_event list" where
  "updateHyperweight vgrad clients h saveCkpt lastCkpt =
     andThen (updateEnc vgrad clients saveCkpt lastCkpt) (updateDec vgrad saveCkpt lastCkpt)
       (ensureCache h, [])"

section \<open>FederatedServer\<close>

text \<open>
  The server's fields that \<^verbatim>\<open>step\<close> reads or writes (the display-only \<^verbatim>\<open>delta\<close> and the
  callbacks are left out). Local training is the client's business: it is a parameter
  \<open>train\<close> that maps the epoch count and a client to the trained client.
\<close>

record FederatedServer =
  roundNo :: nat
  lastDiagnostics :: "InterClientDiag option"
  epochsPerClient :: nat
  encoderAgg :: EncoderAgg
  decoderAgg :: DecoderAgg
  caC :: real
  logAlphaBeta :: bool
  hyperweight :: "Hyperweight option"
  alpha :: "real list"
  beta :: "real list"
  history :: "(nat \<times> real list \<times> real list) list"
  lastCkpt :: "WeightMap list option"

text \<open>
  \<^verbatim>\<open>exportCheckpoint\<close>: \<^verbatim>\<open>ckpt[name] = tensor\<close> for every weight. On an object literal the
  name \<^verbatim>\<open>__proto__\<close> is the inherited accessor: the assignment creates no property.
\<close>

definition exportCheckpoint :: "WeightMap \<Rightarrow> WeightMap" where
  "exportCheckpoint model =
     fold (\<lambda>(k, t) ckpt. if k = ''__proto__'' then ckpt else AList.update k t ckpt) model []"

definition snapshot :: "client list \<Rightarrow> error + WeightMap list" where
  "snapshot cs = mapE (\<lambda>c. toCanonicalMap (exportCheckpoint (weights c))) cs"

definition refreshAlphaBeta :: "FederatedServer \<Rightarrow> FederatedServer" where
  "refreshAlphaBeta srv =
     (case hyperweight srv of
        None \<Rightarrow> srv
      | Some h \<Rightarrow>
          srv\<lparr>alpha := (case enc h of None \<Rightarrow> alpha srv | Some e \<Rightarrow> alphaVar e),
               beta := (case dec h of None \<Rightarrow> beta srv
                        | Some d \<Rightarrow> concat (map snd (layerToBetaVar d)))\<rparr>)"

definition maybeLogAlphaBeta :: "FederatedServer \<Rightarrow> FederatedServer" where
  "maybeLogAlphaBeta srv =
     (if logAlphaBeta srv
      then srv\<lparr>history := history srv @ [(roundNo srv, alpha srv, beta srv)]\<rparr>
      else srv)"

record step_state =
  server :: FederatedServer
  members :: "client list"
  applied :: "meta_event list"

text \<open>Step (3): the meta-update runs from round 1 on, when a Hyperweight is attached.\<close>

definition metaStage ::
  "((real list \<Rightarrow> real) \<Rightarrow> real list \<Rightarrow> real list) \<Rightarrow> nat \<Rightarrow> WeightMap list \<Rightarrow> WeightMap list
     \<Rightarrow> step_state \<Rightarrow> outcome \<times> step_state" where
  "metaStage vgrad r saveCkpt lastC st =
     (case hyperweight (server st) of
        None \<Rightarrow> (Done, st)
      | Some h \<Rightarrow>
          if r > 0 then
            (case updateHyperweight vgrad (members st) h saveCkpt lastC of
               (out, h', evs) \<Rightarrow>
                 (out, st\<lparr>server := (server st)\<lparr>hyperweight := Some h'\<rparr>,
                          applied := applied st @ evs\<rparr>))
          else (Done, st))"

definition aggregateStage :: "WeightMap list \<Rightarrow> WeightMap list \<Rightarrow> step_state \<Rightarrow> outcome \<times> step_state" where
  "aggregateStage saveCkpt lastC st =
     (let srv = server st in
      case aggregate (members st) saveCkpt lastC (hyperweight srv) (encoderAgg srv) (decoderAgg srv)
             (caC srv) of
        (out, a) \<Rightarrow>
          ((case out of Returned \<Rightarrow> Done | _ \<Rightarrow> out),
           st\<lparr>server := srv\<lparr>hyperweight := hyper a\<rparr>, members := live a\<rparr>))"

definition step ::
  "(nat \<Rightarrow> client \<Rightarrow> client) \<Rightarrow> ((real list \<Rightarrow> real) \<Rightarrow> real list \<Rightarrow> real list)
     \<Rightarrow> FederatedServer \<Rightarrow> client list \<Rightarrow> outcome \<times> step_state" where
  "step train vgrad srv clients =
     (let r = roundNo srv in
      tryE (case lastCkpt srv of None \<Rightarrow> snapshot clients | Some l \<Rightarrow> Inr l) (\<lambda>lastC st0.
        let st1 = st0\<lparr>server := (server st0)\<lparr>lastCkpt := Some lastC\<rparr>,
                      members := map (train (epochsPerClient srv)) clients\<rparr>
        in tryE (snapshot (members st1)) (\<lambda>saveCkpt.
           tryE (computeInterClientDiagnostics (members st1) saveCkpt lastC) (\<lambda>diag st2.
             andThen (metaStage vgrad r saveCkpt lastC)
               (andThen (\<lambda>st. (Done, st\<lparr>server := maybeLogAlphaBeta (refreshAlphaBeta (server st))\<rparr>))
               (andThen (aggregateStage saveCkpt lastC)
                 (\<lambda>st. tryE (snapshot (members st)) (\<lambda>newLast st.
                          (Done, st\<lparr>server := (server st)\<lparr>lastCkpt := Some newLast,
                                                             roundNo := roundNo (server st) + 1\<rparr>\<rparr>)) st)))
               (st2\<lparr>server := (server st2)\<lparr>lastDiagnostics := Some diag\<rparr>\<rparr>))) st1)
        \<lparr>server = srv, members = clients, applied = []\<rparr>)"

text \<open>What the encoder stage must leave alone: the live models, the decoder policy and
  the decoder cache entry of the Hyperweight \<open>h\<close> the call started with.\<close>

definition decoderUntouched :: "client list \<Rightarrow> Hyperweight \<Rightarrow> agg_state \<Rightarrow> bool" where
  "decoderUntouched clients h s =
     (live s = clients \<and>
      (case hyper s of
         None \<Rightarrow> False
       | Some h' \<Rightarrow> dec h' = dec h \<and> cacheDec (theCache h') = cacheDec (theCache h)))"








section \<open>Properties of the weight-map utilities\<close>

lemma bindE_Inr [simp]: "bindE (Inr x) f = f x"
  by (simp add: bindE_def)

lemma bindE_Inl [simp]: "bindE (Inl e) f = Inl e"
  by (simp add: bindE_def)

lemma bindE_eq_Inr: "bindE m f = Inr y \<longleftrightarrow> (\<exists>x. m = Inr x \<and> f x = Inr y)"
  by (cases m) simp_all

lemma getE_Some [simp]: "getE (Some v) = Inr v"
  by (simp add: getE_def)

lemma getE_None [simp]: "getE None = Inl TypeError"
  by (simp add: getE_def)

lemma mapE_all_ok:
  "(\<forall>x\<in>set xs. f x = Inr (g x)) \<Longrightarrow> mapE f xs = Inr (map g xs)"
  by (induction xs) simp_all

subsection \<open>canonicalKey\<close>

lemma canonicalKey_fixed: "\<not> hasAutoSuffix k \<Longrightarrow> canonicalKey k = k"
  by (induction k) auto

lemma canonicalKey_strips:
  "hasAutoSuffix k \<Longrightarrow> length (canonicalKey k) < length k"
  by (induction k) (auto simp: canonicalKey_fixed less_Suc_eq_le intro: le_less_trans)

lemma hasAutoSuffix_iff:
  "hasAutoSuffix k \<longleftrightarrow> (\<exists>p ds. k = p @ CHR ''_'' # ds \<and> ds \<noteq> [] \<and> list_all is_digit ds)"
proof (induction k)
  case Nil
  then show ?case by simp
next
  case (Cons c cs)
  show ?case
  proof
    assume "hasAutoSuffix (c # cs)"
    then consider "c = CHR ''_'' \<and> cs \<noteq> [] \<and> list_all is_digit cs" | "hasAutoSuffix cs"
      by auto
    then show "\<exists>p ds. c # cs = p @ CHR ''_'' # ds \<and> ds \<noteq> [] \<and> list_all is_digit ds"
    proof cases
      case 1
      then have "c # cs = [] @ CHR ''_'' # cs \<and> cs \<noteq> [] \<and> list_all is_digit cs" by simp
      then show ?thesis by blast
    next
      case 2
      then obtain p ds where "cs = p @ CHR ''_'' # ds" "ds \<noteq> []" "list_all is_digit ds"
        using Cons.IH by blast
      then have "c # cs = (c # p) @ CHR ''_'' # ds \<and> ds \<noteq> [] \<and> list_all is_digit ds" by simp
      then show ?thesis by blast
    qed
  next
    assume "\<exists>p ds. c # cs = p @ CHR ''_'' # ds \<and> ds \<noteq> [] \<and> list_all is_digit ds"
    then obtain p ds where eq: "c # cs = p @ CHR ''_'' # ds" and ds: "ds \<noteq> []" "list_all is_digit ds"
      by blast
    show "hasAutoSuffix (c # cs)"
    proof (cases p)
      case Nil
      with eq ds show ?thesis by simp
    next
      case (Cons a p')
      with eq have "cs = p' @ CHR ''_'' # ds" by simp
      with ds Cons.IH have "hasAutoSuffix cs" by blast
      then show ?thesis by simp
    qed
  qed
qed

text \<open>
  C9 (as stated): \<^verbatim>\<open>canonicalKey\<close> is idempotent. The code strips one trailing group
  \<^verbatim>\<open>_<digits>\<close> only, so a key that ends in two such groups loses the second one at the
  second application: the statement fails at \<^verbatim>\<open>a_1_2\<close>.
\<close>

theorem canonicalKey_not_idempotent:
  "canonicalKey (canonicalKey ''a_1_2'') \<noteq> canonicalKey ''a_1_2''"
  by (simp add: is_digit_def)

text \<open>
  C9 (amended): \<^verbatim>\<open>canonicalKey\<close> leaves every key without a trailing \<^verbatim>\<open>_<digits>\<close> group
  unchanged, and applying it twice gives the same as applying it once exactly for the keys
  whose canonical form does not end in a further \<^verbatim>\<open>_<digits>\<close> group.
\<close>

theorem canonicalKey_idempotent_iff:
  "(canonicalKey (canonicalKey k) = canonicalKey k) = (\<not> hasAutoSuffix (canonicalKey k))"
  using canonicalKey_fixed [of "canonicalKey k"] canonicalKey_strips [of "canonicalKey k"]
  by auto

theorem canonicalKey_idempotent_iff_witness:
  "canonicalKey (canonicalKey ''encoder_stage0_conv0/kernel_1'') = canonicalKey ''encoder_stage0_conv0/kernel_1''
   \<and> \<not> hasAutoSuffix (canonicalKey ''encoder_stage0_conv0/kernel_1'')
   \<and> canonicalKey ''encoder_stage0_conv0/kernel_1'' = ''encoder_stage0_conv0/kernel''"
  using canonicalKey_idempotent_iff [of "''encoder_stage0_conv0/kernel_1''"]
  by (simp add: is_digit_def)

subsection \<open>flatten and unflatten\<close>

lemma unflatten_loop_roundtrip:
  assumes "list_all2 (\<lambda>k s. \<exists>t. map_of m k = Some t \<and> tensor_ok t \<and> shape t = s) ks ss"
  shows "\<exists>out'. unflatten_loop (pre @ concat (map (\<lambda>k. vals (the (map_of m k))) ks) @ post) ks ss (length pre) out = Inr out'
     \<and> (\<forall>k. map_of out' k = (if k \<in> set ks then map_of m k else map_of out k))"
  using assms
proof (induction ks ss arbitrary: pre out rule: list_all2_induct)
  case Nil
  then show ?case by simp
next
  case (Cons k ks s ss)
  then obtain t where t: "map_of m k = Some t" "tensor_ok t" "shape t = s" by blast
  let ?rest = "concat (map (\<lambda>k. vals (the (map_of m k))) ks)"
  have len: "length (vals t) = prod_list s" using t by (simp add: tensor_ok_def)
  have teq: "\<lparr>shape = s, vals = vals t\<rparr> = t" using t by simp
  from Cons.IH [of "pre @ vals t" "AList.update k t out"]
  obtain out' where o: "unflatten_loop ((pre @ vals t) @ ?rest @ post) ks ss (length (pre @ vals t)) (AList.update k t out) = Inr out'"
    "\<forall>k'. map_of out' k' = (if k' \<in> set ks then map_of m k' else map_of (AList.update k t out) k')"
    by blast
  have "unflatten_loop (pre @ concat (map (\<lambda>k. vals (the (map_of m k))) (k # ks)) @ post) (k # ks) (s # ss) (length pre) out = Inr out'"
    using o(1) t(1) len by (simp add: Let_def teq)
  moreover have "\<forall>k'. map_of out' k' = (if k' \<in> set (k # ks) then map_of m k' else map_of out k')"
    using o(2) t by (auto simp: update_conv')
  ultimately show ?case by blast
qed

lemma flatten_ok:
  assumes "list_all2 (\<lambda>k s. \<exists>t. map_of m k = Some t \<and> tensor_ok t \<and> shape t = s) ks ss"
    and "ks \<noteq> []"
  shows "flatten m ks = Inr (concat (map (\<lambda>k. vals (the (map_of m k))) ks))"
proof -
  have "\<forall>k\<in>set ks. getE (map_of m k) = Inr (the (map_of m k))"
    using assms(1) by (induction rule: list_all2_induct) auto
  then have "mapE (\<lambda>k. getE (map_of m k)) ks = Inr (map (\<lambda>k. the (map_of m k)) ks)"
    by (rule mapE_all_ok)
  then show ?thesis using assms(2) by (simp add: flatten_def comp_def)
qed

text \<open>
  C6 (as stated): \<^verbatim>\<open>unflatten(flatten(m, keys), keys, shapes)\<close> equals \<open>m\<close> on the keys, for
  every key list whose keys occur in \<open>m\<close>. The empty key list is such a list, and there
  \<^verbatim>\<open>flatten\<close> hands \<^verbatim>\<open>tf.concat\<close> no tensor at all: the round trip throws.
\<close>

theorem flatten_unflatten_empty_keys:
  "bindE (flatten [(''a'', \<lparr>shape = [2], vals = [1, 2]\<rparr>)] []) (\<lambda>v. unflatten v [] []) = Inl TFError"
  by (simp add: flatten_def)

text \<open>
  C6 (amended): for a weight map \<open>m\<close>, a non-empty list of keys that all occur in \<open>m\<close> (in
  any order, repeats allowed) and the shapes of the tensors under these keys,
  \<^verbatim>\<open>unflatten(flatten(m, keys), keys, shapes)\<close> returns a map that has exactly these keys and
  holds under each the tensor of \<open>m\<close>.
\<close>

theorem flatten_unflatten_roundtrip:
  assumes "list_all2 (\<lambda>k s. \<exists>t. map_of m k = Some t \<and> tensor_ok t \<and> shape t = s) keys shapes"
    and "keys \<noteq> []"
  shows "\<exists>out. bindE (flatten m keys) (\<lambda>v. unflatten v keys shapes) = Inr out
           \<and> (\<forall>k\<in>set keys. map_of out k = map_of m k) \<and> dom (map_of out) = set keys"
proof -
  from unflatten_loop_roundtrip [OF assms(1), of "[]" "[]" "[]"]
  obtain out where o: "unflatten (concat (map (\<lambda>k. vals (the (map_of m k))) keys)) keys shapes = Inr out"
    "\<forall>k. map_of out k = (if k \<in> set keys then map_of m k else None)"
    by (auto simp: unflatten_def)
  have "\<forall>k\<in>set keys. map_of m k \<noteq> None"
    using assms(1) by (induction rule: list_all2_induct) auto
  with o(2) have "dom (map_of out) = set keys"
    by (auto simp: dom_def)
  with o flatten_ok [OF assms] show ?thesis by auto
qed

theorem flatten_unflatten_roundtrip_witness:
  "\<exists>out. bindE (flatten [(''a'', \<lparr>shape = [2], vals = [1, 2]\<rparr>), (''b'', \<lparr>shape = [], vals = [3]\<rparr>)] [''b'', ''a''])
          (\<lambda>v. unflatten v [''b'', ''a''] [[], [2]]) = Inr out
      \<and> map_of out ''a'' = Some \<lparr>shape = [2], vals = [1, 2]\<rparr>
      \<and> map_of out ''b'' = Some \<lparr>shape = [], vals = [3]\<rparr>"
  using flatten_unflatten_roundtrip [of "[(''a'', \<lparr>shape = [2], vals = [1, 2]\<rparr>), (''b'', \<lparr>shape = [], vals = [3]\<rparr>)]" "[''b'', ''a'']" "[[], [2]]"]
  by (auto simp: tensor_ok_def)

section \<open>Properties of the simplex projection and the solver\<close>

subsection \<open>The exact reading\<close>

lemma rho_step_tau:
  "i < length u \<Longrightarrow> rho_step_exact u i (sum_list (take i u), r) =
     (sum_list (take (Suc i) u), if u ! i - tau u i > 0 then int i else r)"
  by (simp add: rho_step_exact_def tau_def Let_def take_Suc_conv_app_nth)

lemma tau_0: "u \<noteq> [] \<Longrightarrow> u ! 0 - tau u 0 = 1"
  by (cases u) (simp_all add: tau_def)

lemma rho_fold_inv:
  assumes "k \<le> length u"
  shows "\<exists>r. fold (rho_step_exact u) [0..<k] (0, -1) = (sum_list (take k u), r)
           \<and> r < int k \<and> - 1 \<le> r \<and> (0 < k \<longrightarrow> 0 \<le> r)
           \<and> (0 \<le> r \<longrightarrow> u ! nat r - tau u (nat r) > 0)
           \<and> (\<forall>j. r < int j \<and> j < k \<longrightarrow> \<not> u ! j - tau u j > 0)"
  using assms
proof (induction k)
  case 0
  then show ?case by simp
next
  case (Suc k)
  then have klt: "k < length u" by simp
  from Suc obtain r where r: "fold (rho_step_exact u) [0..<k] (0, -1) = (sum_list (take k u), r)"
    "r < int k" "- 1 \<le> r" "0 < k \<longrightarrow> 0 \<le> r"
    "0 \<le> r \<longrightarrow> u ! nat r - tau u (nat r) > 0"
    "\<forall>j. r < int j \<and> j < k \<longrightarrow> \<not> u ! j - tau u j > 0"
    by auto
  let ?r' = "if u ! k - tau u k > 0 then int k else r"
  have f: "fold (rho_step_exact u) [0..<Suc k] (0, -1) = (sum_list (take (Suc k) u), ?r')"
    using r(1) rho_step_tau [OF klt] by simp
  have nonneg: "0 \<le> ?r'"
  proof (cases "k = 0")
    case True
    with klt have "u \<noteq> []" by auto
    from tau_0 [OF this] True show ?thesis by simp
  next
    case False
    with r(4) show ?thesis by simp
  qed
  have c5: "0 \<le> ?r' \<longrightarrow> u ! nat ?r' - tau u (nat ?r') > 0"
    using r(5) by simp
  have c6: "\<forall>j. ?r' < int j \<and> j < Suc k \<longrightarrow> \<not> u ! j - tau u j > 0"
    using r(6) by (auto simp: less_Suc_eq)
  have "?r' < int (Suc k)" "- 1 \<le> ?r'" using r(2,3) by auto
  with f nonneg c5 c6 show ?case by blast
qed

lemma sum_list_shift: "sum_list (map (\<lambda>x. x - c) xs) = sum_list xs - real (length xs) * (c::real)"
  by (induction xs) (simp_all add: algebra_simps)

lemma sum_list_max_above:
  "(\<forall>x\<in>set xs. c < x) \<Longrightarrow> sum_list (map (\<lambda>x. max (x - c) 0) xs) = sum_list xs - real (length xs) * (c::real)"
proof -
  assume "\<forall>x\<in>set xs. c < x"
  then have eq: "map (\<lambda>x. max (x - c) 0) xs = map (\<lambda>x. x - c) xs" by (auto simp: max_def)
  show ?thesis by (simp only: eq sum_list_shift)
qed

lemma sum_list_max_below:
  "(\<forall>x\<in>set xs. x \<le> c) \<Longrightarrow> sum_list (map (\<lambda>x. max (x - c) 0) xs) = (0::real)"
  by (induction xs) (simp_all add: max_def)

lemma sorted_desc_threshold_sum:
  fixes u :: "real list"
  assumes srt: "sorted (rev u)" and n: "u \<noteq> []"
    and r: "r < length u" "u ! r - tau u r > 0"
    and after: "\<forall>j. r < j \<and> j < length u \<longrightarrow> \<not> u ! j - tau u j > 0"
  shows "sum_list (map (\<lambda>x. max (x - tau u r) 0) u) = 1"
proof -
  let ?th = "tau u r"
  let ?k = "Suc r"
  have above: "\<forall>x\<in>set (take ?k u). ?th < x"
  proof
    fix x assume "x \<in> set (take ?k u)"
    then obtain i where i: "i < ?k" "i < length u" "x = u ! i"
      by (auto simp: in_set_conv_nth)
    then have "u ! r \<le> u ! i" using sorted_rev_nth_mono [OF srt, of i r] r(1) by simp
    with r(2) i show "?th < x" by simp
  qed
  have below: "\<forall>x\<in>set (drop ?k u). x \<le> ?th"
  proof
    fix x assume "x \<in> set (drop ?k u)"
    then obtain i where i: "i < length u - ?k" "x = u ! (?k + i)"
      by (auto simp: in_set_conv_nth)
    then have k: "?k < length u" by simp
    have le1: "u ! (?k + i) \<le> u ! ?k" using sorted_rev_nth_mono [OF srt, of ?k "?k + i"] i by simp
    have "\<not> u ! ?k - tau u ?k > 0" using after k by simp
    then have "u ! ?k \<le> tau u ?k" by simp
    moreover have "sum_list (take (Suc ?k) u) = sum_list (take ?k u) + u ! ?k"
      using k by (simp add: take_Suc_conv_app_nth)
    ultimately have "u ! ?k \<le> (sum_list (take ?k u) + u ! ?k - 1) / real (Suc ?k)"
      by (simp add: tau_def)
    then have "u ! ?k * real (Suc ?k) \<le> sum_list (take ?k u) + u ! ?k - 1"
      by (simp add: pos_le_divide_eq)
    then have "u ! ?k * real ?k \<le> sum_list (take ?k u) - 1"
      by (simp add: algebra_simps)
    then have "u ! ?k \<le> ?th"
      by (simp add: tau_def pos_le_divide_eq)
    with le1 i show "x \<le> ?th" by simp
  qed
  have len: "length (take ?k u) = ?k" using r(1) by simp
  have "sum_list (map (\<lambda>x. max (x - ?th) 0) u)
      = sum_list (map (\<lambda>x. max (x - ?th) 0) (take ?k u)) + sum_list (map (\<lambda>x. max (x - ?th) 0) (drop ?k u))"
  proof -
    have "sum_list (map (\<lambda>x. max (x - ?th) 0) (take ?k u @ drop ?k u))
      = sum_list (map (\<lambda>x. max (x - ?th) 0) (take ?k u)) + sum_list (map (\<lambda>x. max (x - ?th) 0) (drop ?k u))"
      by (simp only: map_append sum_list_append)
    then show ?thesis by (simp only: append_take_drop_id)
  qed
  also have "\<dots> = sum_list (take ?k u) - real ?k * ?th"
    using sum_list_max_above [OF above] sum_list_max_below [OF below] len by simp
  also have "\<dots> = 1" by (simp add: tau_def)
  finally show ?thesis .
qed

lemma projectToSimplex_exact_threshold:
  assumes "v \<noteq> []"
  shows "\<exists>th. projectToSimplex_exact v = map (\<lambda>x. max (x - th) 0) v
            \<and> sum_list (map (\<lambda>x. max (x - th) 0) v) = 1"
proof -
  let ?u = "rev (sort v)"
  have len: "length ?u = length v" by simp
  from rho_fold_inv [of "length v" ?u]
  obtain r where r: "fold (rho_step_exact ?u) [0..<length v] (0, -1) = (sum_list (take (length v) ?u), r)"
    "r < int (length v)" "0 \<le> r" "?u ! nat r - tau ?u (nat r) > 0"
    "\<forall>j. r < int j \<and> j < length v \<longrightarrow> \<not> ?u ! j - tau ?u j > 0"
    using assms by auto
  have th: "(sum_list (take (nat (r + 1)) ?u) - 1) / real_of_int (r + 1) = tau ?u (nat r)"
  proof -
    have n1: "nat (r + 1) = Suc (nat r)" using r(3) by arith
    have n2: "real_of_int (r + 1) = real (Suc (nat r))" using r(3) by simp
    show ?thesis by (simp only: tau_def n1 n2)
  qed
  have p: "projectToSimplex_exact v = map (\<lambda>x. max (x - tau ?u (nat r)) 0) v"
    unfolding projectToSimplex_exact_def Let_def r(1) snd_conv th ..
  have "sum_list (map (\<lambda>x. max (x - tau ?u (nat r)) 0) ?u) = 1"
  proof (rule sorted_desc_threshold_sum)
    show "sorted (rev ?u)" by simp
    show "?u \<noteq> []" using assms len by (metis length_0_conv)
    show "nat r < length ?u" using r(2,3) by simp
    show "?u ! nat r - tau ?u (nat r) > 0" by (rule r(4))
    show "\<forall>j. nat r < j \<and> j < length ?u \<longrightarrow> \<not> ?u ! j - tau ?u j > 0"
      using r(5) r(3) by auto
  qed
  moreover have "mset (map (\<lambda>x. max (x - tau ?u (nat r)) 0) ?u) = mset (map (\<lambda>x. max (x - tau ?u (nat r)) 0) v)"
    by simp
  then have "sum_list (map (\<lambda>x. max (x - tau ?u (nat r)) 0) ?u) = sum_list (map (\<lambda>x. max (x - tau ?u (nat r)) 0) v)"
    using sum_mset_sum_list [of "map (\<lambda>x. max (x - tau ?u (nat r)) 0) ?u"]
      sum_mset_sum_list [of "map (\<lambda>x. max (x - tau ?u (nat r)) 0) v"]
    by (simp only:)
  ultimately show ?thesis using p by auto
qed

lemma sum_list_map2_nth:
  "length xs = length ys \<Longrightarrow> sum_list (map2 f xs ys) = (\<Sum>i<length xs. f (xs ! i) (ys ! i))"
proof -
  assume l: "length xs = length ys"
  have "sum_list (map2 f xs ys) = (\<Sum>i = 0..<length (map2 f xs ys). map2 f xs ys ! i)"
    by (rule sum_list_sum_nth)
  also have "\<dots> = (\<Sum>i<length xs. f (xs ! i) (ys ! i))"
    using l by (intro sum.cong) (auto simp: lessThan_atLeast0)
  finally show ?thesis .
qed

lemma threshold_nearest:
  fixes v y :: "real list"
  assumes w: "w = map (\<lambda>x. max (x - th) 0) v" and sw: "sum_list w = 1"
    and ly: "length y = length v" and y0: "\<forall>x\<in>set y. 0 \<le> x" and sy: "sum_list y = 1"
  shows "sum_list (map2 (\<lambda>a b. (a - b)\<^sup>2) w v) \<le> sum_list (map2 (\<lambda>a b. (a - b)\<^sup>2) y v)"
proof -
  let ?n = "length v"
  have lw: "length w = ?n" using w by simp
  have pt: "(w ! i - v ! i)\<^sup>2 + 2 * th * (w ! i - y ! i) \<le> (y ! i - v ! i)\<^sup>2" if i: "i < ?n" for i
  proof -
    have yi: "0 \<le> y ! i" using y0 i ly by (simp add: all_set_conv_all_nth)
    have wi: "w ! i = max (v ! i - th) 0" using w i by simp
    have id: "(y ! i - v ! i)\<^sup>2 - (w ! i - v ! i)\<^sup>2 = (y ! i - w ! i)\<^sup>2 + 2 * (y ! i - w ! i) * (w ! i - v ! i)"
      by (simp add: power2_eq_square algebra_simps)
    have "2 * (y ! i - w ! i) * (w ! i - v ! i) \<ge> 2 * th * (w ! i - y ! i)"
    proof (cases "v ! i - th > 0")
      case True
      then have e: "w ! i - v ! i = - th" using wi by (simp add: max_def)
      have "2 * (y ! i - w ! i) * (w ! i - v ! i) = 2 * (y ! i - w ! i) * (- th)"
        by (simp only: e)
      then show ?thesis by (simp add: algebra_simps)
    next
      case False
      then have w0: "w ! i = 0" using wi by (simp add: max_def)
      from False have "v ! i \<le> th" by simp
      then have "y ! i * v ! i \<le> y ! i * th" using yi by (rule mult_left_mono)
      then show ?thesis using w0 by (simp add: algebra_simps)
    qed
    moreover have "0 \<le> (y ! i - w ! i)\<^sup>2" by simp
    ultimately show ?thesis using id by linarith
  qed
  have "(\<Sum>i<?n. (w ! i - v ! i)\<^sup>2 + 2 * th * (w ! i - y ! i)) \<le> (\<Sum>i<?n. (y ! i - v ! i)\<^sup>2)"
    by (rule sum_mono) (use pt in simp)
  moreover have "(\<Sum>i<?n. (w ! i - v ! i)\<^sup>2 + 2 * th * (w ! i - y ! i))
      = (\<Sum>i<?n. (w ! i - v ! i)\<^sup>2) + 2 * th * ((\<Sum>i<?n. w ! i) - (\<Sum>i<?n. y ! i))"
  proof -
    have "(\<Sum>i<?n. 2 * th * (w ! i - y ! i)) = 2 * th * ((\<Sum>i<?n. w ! i) - (\<Sum>i<?n. y ! i))"
      by (simp only: sum_distrib_left [symmetric] sum_subtractf)
    then show ?thesis by (simp only: sum.distrib)
  qed
  moreover have "(\<Sum>i<?n. w ! i) = sum_list w" using lw by (simp add: sum_list_sum_nth lessThan_atLeast0)
  moreover have "(\<Sum>i<?n. y ! i) = sum_list y" using ly by (simp add: sum_list_sum_nth lessThan_atLeast0)
  ultimately have "(\<Sum>i<?n. (w ! i - v ! i)\<^sup>2) \<le> (\<Sum>i<?n. (y ! i - v ! i)\<^sup>2)"
    using sw sy by simp
  then show ?thesis
    using sum_list_map2_nth [of w v "\<lambda>a b. (a - b)\<^sup>2"] sum_list_map2_nth [of y v "\<lambda>a b. (a - b)\<^sup>2"] lw ly
    by simp
qed

lemma projectToSimplex_exact_onSimplex:
  assumes "v \<noteq> []"
  shows "onSimplex (length v) (projectToSimplex_exact v)"
proof -
  from projectToSimplex_exact_threshold [OF assms]
  obtain th where th: "projectToSimplex_exact v = map (\<lambda>x. max (x - th) 0) v"
    "sum_list (map (\<lambda>x. max (x - th) 0) v) = 1" by blast
  have "list_all (\<lambda>x. 0 \<le> x) (projectToSimplex_exact v)"
    unfolding th(1) by (simp add: list_all_iff)
  with th show ?thesis by (simp add: onSimplex_def)
qed

lemma projectToSimplex_exact_nearest:
  assumes "v \<noteq> []" and "onSimplex (length v) y"
  shows "euclidDist (projectToSimplex_exact v) v \<le> euclidDist y v"
proof -
  from projectToSimplex_exact_threshold [OF assms(1)]
  obtain th where th: "projectToSimplex_exact v = map (\<lambda>x. max (x - th) 0) v"
    "sum_list (map (\<lambda>x. max (x - th) 0) v) = 1" by blast
  have s: "sum_list (projectToSimplex_exact v) = 1" using th by simp
  from assms(2) have y: "length y = length v" "\<forall>x\<in>set y. 0 \<le> x" "sum_list y = 1"
    by (simp_all add: onSimplex_def list_all_iff)
  from threshold_nearest [OF th(1) s y] show ?thesis
    by (simp add: euclidDist_def)
qed

text \<open>
  Over exact reals the result for the empty vector is empty and sums to 0; for every other
  vector the result lies on the simplex and no point of the simplex is closer to the input.
\<close>

lemma projectToSimplex_exact_empty:
  "\<not> \<bar>sum_list (projectToSimplex_exact []) - 1\<bar> \<le> 1 / 10 ^ 9"
  by (simp add: projectToSimplex_exact_def)

lemma projectToSimplex_exact_correct:
  assumes "v \<noteq> []"
  shows "onSimplex (length v) (projectToSimplex_exact v)
       \<and> \<bar>sum_list (projectToSimplex_exact v) - 1\<bar> \<le> 1 / 10 ^ 9
       \<and> (\<forall>y. onSimplex (length v) y \<longrightarrow> euclidDist (projectToSimplex_exact v) v \<le> euclidDist y v)"
proof -
  have on: "onSimplex (length v) (projectToSimplex_exact v)"
    by (rule projectToSimplex_exact_onSimplex [OF assms])
  then have "sum_list (projectToSimplex_exact v) = 1" by (simp add: onSimplex_def)
  then have "\<bar>sum_list (projectToSimplex_exact v) - 1\<bar> \<le> 1 / 10 ^ 9" by simp
  with on projectToSimplex_exact_nearest [OF assms] show ?thesis by blast
qed

lemma projectToSimplex_exact_correct_example:
  "[1 / 2, 3, - 1] \<noteq> ([] :: real list)
   \<and> onSimplex 3 (projectToSimplex_exact [1 / 2, 3, - 1])
   \<and> onSimplex 3 [1 / 3, 1 / 3, 1 / 3]
   \<and> euclidDist (projectToSimplex_exact [1 / 2, 3, - 1]) [1 / 2, 3, - 1]
       \<le> euclidDist [1 / 3, 1 / 3, 1 / 3] [1 / 2, 3, - 1]"
proof -
  have a: "onSimplex (length [1 / 2, 3, - 1 :: real]) [1 / 3, 1 / 3, 1 / 3]"
    by (simp add: onSimplex_def)
  have n: "length [1 / 2, 3, - 1 :: real] = 3" by simp
  from projectToSimplex_exact_correct [of "[1 / 2, 3, - 1]"] a show ?thesis
    unfolding n by blast
qed


lemma uniform_onSimplex: "0 < n \<Longrightarrow> onSimplex n (replicate n (1 / real n))"
  by (simp add: onSimplex_def list_all_iff sum_list_replicate)

lemma solve_loop_exact_onSimplex:
  assumes "A \<noteq> []"
  shows "onSimplex (length A) x \<Longrightarrow> onSimplex (length A) (solve_loop_exact k A c tol x fx stp)"
proof (induction k arbitrary: x fx stp)
  case 0
  then show ?case by simp
next
  case (Suc k)
  let ?z = "map (\<lambda>i. x ! i - stp * gradCA_exact A x c x ! i) [0..<length A]"
  have z: "?z \<noteq> []" "length ?z = length A" using assms by simp_all
  from projectToSimplex_exact_onSimplex [OF z(1)] z(2)
  have p: "onSimplex (length A) (projectToSimplex_exact ?z)" by simp
  show ?case
    using Suc.IH [OF Suc.prems] Suc.IH [OF p] Suc.prems p
    by (simp add: Let_def)
qed

lemma solve_loop_exact_nil: "solve_loop_exact k [] c tol [] fx stp = []"
  by (induction k arbitrary: fx stp) (simp_all add: Let_def projectToSimplex_exact_def)

text \<open>
  Over exact reals the solver keeps its iterate on the simplex: the uniform start lies on
  it and every accepted iterate is a projection. Without rows the result is empty.
\<close>

lemma solveSimplexProjectedGD_exact_empty:
  "sum_list (solveSimplexProjectedGD_exact [] 1 500 (1 / 10 ^ 9)) \<noteq> 1"
  by (simp add: solveSimplexProjectedGD_exact_def solve_loop_exact_nil)

lemma solveSimplexProjectedGD_exact_onSimplex:
  assumes "A \<noteq> []"
  shows "onSimplex (length A) (replicate (length A) (1 / real (length A)))
       \<and> onSimplex (length A) (solveSimplexProjectedGD_exact A c maxIters tol)"
proof -
  have u: "onSimplex (length A) (replicate (length A) (1 / real (length A)))"
    using assms by (intro uniform_onSimplex) simp
  from solve_loop_exact_onSimplex [OF assms u] u show ?thesis
    by (simp add: solveSimplexProjectedGD_exact_def Let_def)
qed

lemma solveSimplexProjectedGD_exact_onSimplex_example:
  "[[2, 1], [1, 2]] \<noteq> ([] :: real list list)
   \<and> onSimplex 2 (solveSimplexProjectedGD_exact [[2, 1], [1, 2]] (1 / 2) 500 (1 / 10 ^ 9))"
  using solveSimplexProjectedGD_exact_onSimplex [of "[[2, 1], [1, 2]]" "1 / 2" 500 "1 / 10 ^ 9"]
  by (simp add: numeral_2_eq_2)

subsection \<open>Double precision: rounding\<close>

lemma halve_numeral:
  "halve (numeral k) x e = (if x < 2 then e else halve (pred_numeral k) (x / 2) (e + 1))"
  by (simp add: numeral_eq_Suc)

lemma twice_numeral:
  "twice (numeral k) x e = (if 1 \<le> x then e else twice (pred_numeral k) (x * 2) (e - 1))"
  by (simp add: numeral_eq_Suc)

lemmas r64 = round64_def binade_def pow2_def roundEven_def Let_def halve_numeral twice_numeral

lemma round64_notNaN [simp]: "round64 x \<noteq> NaN"
  by (simp add: round64_def Let_def)

lemma pow2_pos [simp]: "0 < pow2 e"
  by (simp add: pow2_def)



lemma round64_small [simp]:
  "round64 0 = Fin 0" "round64 1 = Fin 1" "round64 (- 1) = Fin (- 1)"
proof -
  have "twice k 0 e = e - int k" for k e
    by (induction k arbitrary: e) simp_all
  then show "round64 0 = Fin 0"
    by (simp add: round64_def binade_def roundEven_def Let_def not_le)
  show "round64 1 = Fin 1" "round64 (- 1) = Fin (- 1)"
    by (simp_all add: r64)
qed

lemma fmax_simps [simp]:
  "fmax NaN b = NaN" "fmax a NaN = NaN"
  "fmax (Fin x) (Fin y) = Fin (max x y)"
  "fmax PInf (Fin y) = PInf" "fmax NInf (Fin y) = Fin y"
  by (cases a; simp add: fmax_def max_def)+

lemma fmin_simps [simp]:
  "fmin NaN b = NaN" "fmin a NaN = NaN"
  "fmin (Fin x) (Fin y) = Fin (min x y)"
  "fmin PInf (Fin y) = Fin y" "fmin NInf (Fin y) = NInf"
  by (cases a; simp add: fmin_def min_def)+










lemma length_insertDesc: "length (insertDesc x ys) = Suc (length ys)"
  by (induction ys) auto

lemma length_foldr_insertDesc: "length (foldr insertDesc xs []) = length xs"
  by (induction xs) (simp_all add: length_insertDesc)




subsection \<open>Double precision: the projection\<close>















lemma nan_absorbs [simp]:
  "fadd a NaN = NaN" "fmul a NaN = NaN" "fdiv a NaN = NaN" "fsub a NaN = NaN" "fsub NaN a = NaN"
  "flt a NaN = False"
  by (cases a; simp add: fsub_def)+

lemmas upt_small = upt_rec [of 0] upt_rec [of 1] upt_rec [of "Suc 0"]




text \<open>The running sum of \<open>[10\<^sup>1\<^sup>7]\<close> minus 1 rounds back to \<open>10\<^sup>1\<^sup>7\<close>: no index passes the
  test, the threshold is \<^verbatim>\<open>-1 / 0\<close> and the result is \<open>[Infinity]\<close>.\<close>

lemma overflow_roundings:
  "round64 100000000000000000 = Fin 100000000000000000"
  "round64 99999999999999999 = Fin 100000000000000000"
  by (simp_all add: r64)

lemma projectToSimplex_infinity:
  "projectToSimplex (\<lambda>v. v) [Fin (10 ^ 17)] = [PInf]"
  by (simp add: projectToSimplex_def sortDesc_def rho_step_def nthF_def fsub_def fgt_def
        upt_small overflow_roundings Let_def)






subsection \<open>Double precision: the solver\<close>



lemma ex_matVec: "matVec [[Fin (- 1)]] [x] = [fadd (Fin 0) (fmul (Fin (- 1)) x)]"
  by (simp add: matVec_def nthF_def upt_small)


lemma ex_matVecN: "matVec [[Fin (- 1)]] [NaN] = [NaN]"
  by (simp add: ex_matVec)











section \<open>Properties of the conflict-averse delta\<close>

lemma sq_le_sum_squares: "x \<in> set v \<Longrightarrow> x\<^sup>2 \<le> sum_list (map (\<lambda>x. x\<^sup>2) v)" for x :: real
proof (induction v)
  case Nil
  then show ?case by simp
next
  case (Cons a v)
  have nn: "0 \<le> sum_list (map (\<lambda>x. x\<^sup>2) v)" by (rule sum_list_nonneg) auto
  from Cons show ?case
  proof (cases "x = a")
    case True
    with nn show ?thesis by simp
  next
    case False
    with Cons have "x\<^sup>2 \<le> sum_list (map (\<lambda>x. x\<^sup>2) v)" by simp
    moreover have "0 \<le> a\<^sup>2" by simp
    ultimately have "x\<^sup>2 \<le> a\<^sup>2 + sum_list (map (\<lambda>x. x\<^sup>2) v)" by linarith
    then show ?thesis by simp
  qed
qed

lemma abs_le_norm2: "x \<in> set v \<Longrightarrow> \<bar>x\<bar> \<le> norm2 v"
proof -
  assume "x \<in> set v"
  then have "sqrt (x\<^sup>2) \<le> sqrt (sum_list (map (\<lambda>x. x\<^sup>2) v))"
    by (intro real_sqrt_le_mono sq_le_sum_squares)
  then show ?thesis by (simp add: norm2_def)
qed

lemma norm2_nonneg: "0 \<le> norm2 v"
  unfolding norm2_def by (intro real_sqrt_ge_zero sum_list_nonneg) auto

lemma EPS_pos: "0 < EPS"
  by (simp add: EPS_def)

lemma small_step_bound:
  assumes "x \<in> set gw"
  shows "\<bar>x * (EPS / (norm2 gw + EPS))\<bar> < EPS"
proof -
  have d: "0 < norm2 gw + EPS" using norm2_nonneg [of gw] EPS_pos by linarith
  have "\<bar>x\<bar> < norm2 gw + EPS" using abs_le_norm2 [OF assms] EPS_pos by linarith
  then have "\<bar>x\<bar> * EPS < (norm2 gw + EPS) * EPS" using EPS_pos by simp
  then have "\<bar>x\<bar> * EPS / (norm2 gw + EPS) < EPS" using d by (simp add: pos_divide_less_eq mult.commute)
  moreover have "\<bar>x * (EPS / (norm2 gw + EPS))\<bar> = \<bar>x\<bar> * EPS / (norm2 gw + EPS)"
    using d EPS_pos by (simp add: abs_mult)
  ultimately show ?thesis by simp
qed

lemma getCaDelta_zero:
  assumes "ds \<noteq> []" "sameLengths ds"
  shows "\<exists>gw. length gw = length (hd ds) \<and>
           getCaDelta ds 0 = Inr (map (\<lambda>k. plainMean ds ! k + gw ! k * (EPS / (norm2 gw + EPS))) [0..<length (hd ds)])"
proof -
  let ?d = "length (hd ds)"
  let ?GG = "map (\<lambda>gi. map (\<lambda>gj. dotList gi gj) ds) ds"
  let ?ww = "solveSimplexProjectedGD_exact ?GG EPS 500 (1 / 10 ^ 9)"
  let ?gw = "map (\<lambda>k. sum_list (map2 (\<lambda>g w. g ! k * w) ds ?ww)) [0..<?d]"
  have pm: "plainMean ds ! k = sum_list (map (\<lambda>g. g ! k) ds) / real (length ds)" if "k < ?d" for k
    using that by (simp add: plainMean_def)
  have "getCaDelta ds 0 = Inr (map (\<lambda>k. sum_list (map (\<lambda>g. g ! k) ds) / real (length ds) + ?gw ! k * (EPS / (norm2 ?gw + EPS))) [0..<?d])"
    using assms by (simp add: getCaDelta_def Let_def o_def)
  also have "map (\<lambda>k. sum_list (map (\<lambda>g. g ! k) ds) / real (length ds) + ?gw ! k * (EPS / (norm2 ?gw + EPS))) [0..<?d]
      = map (\<lambda>k. plainMean ds ! k + ?gw ! k * (EPS / (norm2 ?gw + EPS))) [0..<?d]"
    by (rule map_cong) (simp_all add: pm)
  finally have "getCaDelta ds 0 = Inr (map (\<lambda>k. plainMean ds ! k + ?gw ! k * (EPS / (norm2 ?gw + EPS))) [0..<?d])" .
  moreover have "length ?gw = ?d" by simp
  ultimately show ?thesis by blast
qed

lemma onSimplex_1: "onSimplex 1 w \<Longrightarrow> w = [1]"
  by (cases w) (auto simp: onSimplex_def)

lemma solve_single: "solveSimplexProjectedGD_exact [[a]] c m tol = [1]"
proof -
  have "onSimplex (length [[a]]) (solveSimplexProjectedGD_exact [[a]] c m tol)"
    unfolding solveSimplexProjectedGD_exact_def Let_def
    by (rule solve_loop_exact_onSimplex) (simp_all add: onSimplex_def)
  then show ?thesis by (intro onSimplex_1) simp
qed

text \<open>
  The coefficient \<open>C = 0\<close> with idealised tensor arithmetic. The code computes
  \<^verbatim>\<open>c = alpha * g0Norm + EPS\<close>, which is \<open>EPS\<close> and not \<open>0\<close> at \<open>alpha = 0\<close>, so the term
  \<open>lambda * gw\<close> with \<open>lambda = EPS / (\<parallel>gw\<parallel> + EPS)\<close> remains: the result is not the plain mean
  (one client with the delta \<open>[0.001]\<close> gets \<open>0.001 + 0.001 * EPS / (0.001 + EPS)\<close>), and it
  differs from the mean by less than \<open>EPS\<close> in every component. The \<^verbatim>\<open>float32\<close> kernels of
  the library add their rounding to this difference; that part is not modelled.
\<close>

lemma getCaDelta_zero_not_mean:
  "getCaDelta [[1 / 1000]] 0 \<noteq> Inr (plainMean [[1 / 1000]])"
  by (simp add: getCaDelta_def sameLengths_def Let_def solve_single plainMean_def norm2_def dotList_def EPS_def)

lemma getCaDelta_zero_near_mean:
  assumes "ds \<noteq> []" and "sameLengths ds"
  shows "\<exists>g. getCaDelta ds 0 = Inr g \<and> length g = length (plainMean ds)
            \<and> (\<forall>k<length g. \<bar>g ! k - plainMean ds ! k\<bar> < EPS)"
proof -
  from getCaDelta_zero [OF assms] obtain gw where gw: "length gw = length (hd ds)"
    "getCaDelta ds 0 = Inr (map (\<lambda>k. plainMean ds ! k + gw ! k * (EPS / (norm2 gw + EPS))) [0..<length (hd ds)])"
    by blast
  let ?g = "map (\<lambda>k. plainMean ds ! k + gw ! k * (EPS / (norm2 gw + EPS))) [0..<length (hd ds)]"
  have l: "length ?g = length (plainMean ds)" by (simp add: plainMean_def)
  have "\<bar>?g ! k - plainMean ds ! k\<bar> < EPS" if "k < length ?g" for k
  proof -
    from that gw(1) have "gw ! k \<in> set gw" by simp
    from small_step_bound [OF this] that show ?thesis by simp
  qed
  with gw(2) l show ?thesis by blast
qed

lemma getCaDelta_zero_near_mean_example:
  "[[1, 2], [3, 5]] \<noteq> ([] :: real list list) \<and> sameLengths [[1, 2], [3, 5]]
   \<and> (\<exists>g. getCaDelta [[1, 2], [3, 5]] 0 = Inr g \<and> length g = 2
          \<and> \<bar>g ! 0 - 2\<bar> < EPS \<and> \<bar>g ! 1 - 7 / 2\<bar> < EPS)"
proof -
  have pm: "plainMean [[1, 2], [3, 5]] = [2, 7 / 2]"
    by (simp add: plainMean_def upt_rec)
  have s: "sameLengths [[1, 2], [3, 5 :: real]]" by (simp add: sameLengths_def)
  from getCaDelta_zero_near_mean [of "[[1, 2], [3, 5]]"] s
  obtain g where g: "getCaDelta [[1, 2], [3, 5]] 0 = Inr g" "length g = 2"
    "\<forall>k<length g. \<bar>g ! k - [2, 7 / 2] ! k\<bar> < EPS"
    unfolding pm by auto
  have "(0::nat) < length g" "(1::nat) < length g" using g(2) by simp_all
  with g(3) have "\<bar>g ! 0 - [2, 7 / 2] ! 0\<bar> < EPS" "\<bar>g ! 1 - [2, 7 / 2] ! 1\<bar> < EPS"
    by blast+
  then have "\<bar>g ! 0 - 2\<bar> < EPS" "\<bar>g ! 1 - 7 / 2\<bar> < EPS" by simp_all
  with g s show ?thesis by auto
qed

section \<open>Properties of homogeneous-group averaging\<close>

lemma taskStr_inj: "taskStr s = taskStr t \<Longrightarrow> s = t"
  by (cases s; cases t) simp_all

lemma taskStr_nobar: "CHR ''|'' \<notin> set (taskStr t)"
  by (cases t) simp_all

lemma taskStr_nonempty: "taskStr t \<noteq> []"
  by (cases t) simp_all

lemma joinBar_Cons:
  "joinBar (x # xs) = x @ (if xs = [] then [] else ''|'' @ joinBar xs)"
  by (cases xs) simp_all

lemma takeWhile_joinBar:
  assumes "CHR ''|'' \<notin> set x"
  shows "takeWhile (\<lambda>c. c \<noteq> CHR ''|'') (joinBar (x # xs)) = x"
proof -
  have a: "\<And>c. c \<in> set x \<Longrightarrow> c \<noteq> CHR ''|''" using assms by auto
  show ?thesis
    by (cases xs) (simp_all add: joinBar_Cons takeWhile_append2 a del: joinBar.simps)
qed

lemma dropWhile_joinBar:
  assumes "CHR ''|'' \<notin> set x"
  shows "dropWhile (\<lambda>c. c \<noteq> CHR ''|'') (joinBar (x # xs)) = (if xs = [] then [] else ''|'' @ joinBar xs)"
proof -
  have a: "\<And>c. c \<in> set x \<Longrightarrow> c \<noteq> CHR ''|''" using assms by auto
  show ?thesis
    by (cases xs) (simp_all add: joinBar_Cons dropWhile_append2 a del: joinBar.simps)
qed

lemma joinBar_inj:
  assumes "\<forall>x\<in>set xs. CHR ''|'' \<notin> set x \<and> x \<noteq> []"
    and "\<forall>y\<in>set ys. CHR ''|'' \<notin> set y \<and> y \<noteq> []"
    and "joinBar xs = joinBar ys"
  shows "xs = ys"
  using assms
proof (induction xs arbitrary: ys)
  case Nil
  show ?case
  proof (cases ys)
    case Nil
    then show ?thesis by simp
  next
    case (Cons y ys')
    with Nil.prems have "y \<noteq> []" "joinBar (y # ys') = []" by simp_all
    then show ?thesis by (simp add: joinBar_Cons del: joinBar.simps)
  qed
next
  case (Cons x xs)
  show ?case
  proof (cases ys)
    case Nil
    with Cons.prems have "x \<noteq> []" "joinBar (x # xs) = []" by simp_all
    then show ?thesis by (simp add: joinBar_Cons del: joinBar.simps)
  next
    case (Cons y ys')
    from Cons.prems Cons have nb: "CHR ''|'' \<notin> set x" "CHR ''|'' \<notin> set y"
      and eq: "joinBar (x # xs) = joinBar (y # ys')" by simp_all
    from eq have "takeWhile (\<lambda>c. c \<noteq> CHR ''|'') (joinBar (x # xs)) = takeWhile (\<lambda>c. c \<noteq> CHR ''|'') (joinBar (y # ys'))"
      by (simp only:)
    then have xy: "x = y" by (simp only: takeWhile_joinBar [OF nb(1)] takeWhile_joinBar [OF nb(2)])
    from eq have "dropWhile (\<lambda>c. c \<noteq> CHR ''|'') (joinBar (x # xs)) = dropWhile (\<lambda>c. c \<noteq> CHR ''|'') (joinBar (y # ys'))"
      by (simp only:)
    then have d: "(if xs = [] then [] else ''|'' @ joinBar xs) = (if ys' = [] then [] else ''|'' @ joinBar ys')"
      by (simp only: dropWhile_joinBar [OF nb(1)] dropWhile_joinBar [OF nb(2)])
    have "xs = ys'"
    proof (cases "xs = []")
      case True
      with d show ?thesis by (cases "ys' = []") simp_all
    next
      case False
      with d have "ys' \<noteq> []" "joinBar xs = joinBar ys'" by (cases "ys' = []"; simp)+
      with Cons.IH [of ys'] Cons.prems Cons show ?thesis by simp
    qed
    with xy Cons show ?thesis by simp
  qed
qed

lemma tasksKey_eq_iff: "tasksKey a = tasksKey b \<longleftrightarrow> tasks a = tasks b"
proof
  assume "tasksKey a = tasksKey b"
  then have "joinBar (map taskStr (tasks a)) = joinBar (map taskStr (tasks b))"
    by (simp add: tasksKey_def)
  then have "map taskStr (tasks a) = map taskStr (tasks b)"
    by (intro joinBar_inj) (auto simp: taskStr_nobar taskStr_nonempty)
  then show "tasks a = tasks b"
    by (simp add: list_eq_iff_nth_eq taskStr_inj)
next
  assume "tasks a = tasks b"
  then show "tasksKey a = tasksKey b" by (simp add: tasksKey_def)
qed

lemma sameSig_iff: "sameSig a b \<longleftrightarrow> dataname a = dataname b \<and> tasks a = tasks b"
  by (simp add: sameSig_def tasksKey_eq_iff)

text \<open>
  C7: three clients \<open>[a, b, c]\<close> where \<open>a\<close> and \<open>b\<close> have the same dataset name and the same
  ordered list of enabled tasks and \<open>c\<close> differs from them in one of the two. Homogeneous
  averaging replaces the deltas of \<open>a\<close> and \<open>b\<close> by the average of the two original deltas
  and leaves the delta of \<open>c\<close> as it is. (The deltas of \<open>a\<close> and \<open>b\<close> are flattened over the
  same encoder keys and have one length; \<^verbatim>\<open>tf.addN\<close> rejects anything else.)
\<close>

theorem homoAverage_three_clients:
  assumes "dataname a = dataname b" and "tasks a = tasks b"
    and "dataname c \<noteq> dataname b \<or> tasks c \<noteq> tasks b"
    and "length dA = length dB"
  shows "homoAverageEncoderDeltasInPlace [dA, dB, dC] [a, b, c]
       = Inr [map (\<lambda>x. x / 2) (map2 (+) dA dB), map (\<lambda>x. x / 2) (map2 (+) dA dB), dC]"
proof -
  have ba: "sameSig b a" using assms(1,2) by (simp add: sameSig_iff)
  have cb: "\<not> sameSig c b" using assms(3) by (auto simp: sameSig_iff)
  have r3: "runEnd [a, b, c] 3 = 3" by (subst runEnd.simps) simp
  have r2: "runEnd [a, b, c] 2 = 2" using cb by (subst runEnd.simps) simp
  have r2': "runEnd [a, b, c] (Suc (Suc 0)) = 2" using r2 by (simp add: numeral_2_eq_2)
  have r1: "runEnd [a, b, c] (0 + 1) = 2" using ba r2' by (subst runEnd.simps) simp
  have r1': "runEnd [a, b, c] (Suc 0) = 2" "runEnd [a, b, c] 1 = 2" using r1 by simp_all
  let ?avg = "map (\<lambda>x. x / 2) (map2 (+) dA dB)"
  have l3: "homoLoop [a, b, c] ds 3 = Inr ds" for ds
    by (subst homoLoop.simps) simp
  have l2: "homoLoop [a, b, c] [x, y, dC] 2 = Inr [x, y, dC]" for x y
    by (subst homoLoop.simps) (simp add: r3 l3 addN_def sameLengths_def upt_rec [of 2] Let_def)
  have "homoLoop [a, b, c] [dA, dB, dC] 0 = Inr [?avg, ?avg, dC]"
    using assms(4)
    by (subst homoLoop.simps) (simp add: r1' l2 addN_def sameLengths_def upt_rec [of 0] upt_rec [of 1] upt_rec [of "Suc 0"] Let_def)
  then show ?thesis by (simp add: homoAverageEncoderDeltasInPlace_def)
qed

theorem homoAverage_three_clients_witness:
  "homoAverageEncoderDeltasInPlace [[1, 2], [3, 4], [5, 6]]
     [\<lparr>dataname = ''x'', tasks = [edge, depth], weights = []\<rparr>,
      \<lparr>dataname = ''x'', tasks = [edge, depth], weights = []\<rparr>,
      \<lparr>dataname = ''x'', tasks = [depth, edge], weights = []\<rparr>]
   = Inr [[2, 3], [2, 3], [5, 6]]"
  using homoAverage_three_clients [of
      "\<lparr>dataname = ''x'', tasks = [edge, depth], weights = []\<rparr>"
      "\<lparr>dataname = ''x'', tasks = [edge, depth], weights = []\<rparr>"
      "\<lparr>dataname = ''x'', tasks = [depth, edge], weights = []\<rparr>"
      "[1, 2]" "[3, 4]" "[5, 6]"]
  by simp

section \<open>Properties of the diagnostics\<close>

text \<open>
  C8: with fewer than two clients \<^verbatim>\<open>computeInterClientDiagnostics\<close> returns the degenerate
  record (zero divergence, cosine 1, no negative pair) and raises nothing, whatever the
  checkpoint lists hold.
\<close>

theorem computeInterClientDiagnostics_degenerate:
  assumes "length clients < 2"
  shows "computeInterClientDiagnostics clients saveCkpt lastC
       = Inr \<lparr>meanDeltaNorm = 0, meanClientDeltaNorm = 0, meanDistToMean = 0,
              meanCosine = 1, fracNegativeCosine = 0\<rparr>"
  using assms by (simp add: computeInterClientDiagnostics_def)

theorem computeInterClientDiagnostics_degenerate_witness:
  "length [\<lparr>dataname = ''x'', tasks = [edge], weights = []\<rparr>] < 2
   \<and> computeInterClientDiagnostics [\<lparr>dataname = ''x'', tasks = [edge], weights = []\<rparr>] [] []
       = Inr \<lparr>meanDeltaNorm = 0, meanClientDeltaNorm = 0, meanDistToMean = 0,
              meanCosine = 1, fracNegativeCosine = 0\<rparr>
   \<and> computeInterClientDiagnostics [] [] []
       = Inr \<lparr>meanDeltaNorm = 0, meanClientDeltaNorm = 0, meanDistToMean = 0,
              meanCosine = 1, fracNegativeCosine = 0\<rparr>"
  using computeInterClientDiagnostics_degenerate [of "[\<lparr>dataname = ''x'', tasks = [edge], weights = []\<rparr>]" "[]" "[]"]
    computeInterClientDiagnostics_degenerate [of "[]" "[]" "[]"]
  by simp

section \<open>Properties of aggregate\<close>

lemmas agg_eval =
  aggregate_def tryE_def andThen_def nthE_def getE_def ensureCache_def emptyCache_def theCache_def
  encoderStage_def encFedavg_def getEncoderKeys_def startsWith_def meanSoup_def meanTensor_def
  addN_def sameLengths_def pick_def stageWrite_def assignFrom_def decoderStage_def blocksOf_def
  blocksOfClient_def wmAt_def decFedavg_def decCross_def loadStage_def loadCheckpoint_def
  Let_def upt_rec [of 0] upt_rec [of 1] upt_rec [of "Suc 0"] is_digit_def

text \<open>
  C5: every call of \<^verbatim>\<open>aggregate\<close> that returns without error has reloaded every client's
  live model from its staged checkpoint. The decoder strategy \<^verbatim>\<open>fedavg\<close> leaves by
  \<^verbatim>\<open>if (blocks.length === 0) return;\<close> when no client has an enabled task, before the
  load loop: two clients without tasks, encoder weights 0 and 2, encoder strategy
  \<^verbatim>\<open>fedavg\<close>. The staged checkpoints hold the mean 1, the call returns, and the live
  models still hold 0 and 2.
\<close>

theorem aggregate_early_return_skips_load:
  "aggregate
     [\<lparr>dataname = ''d'', tasks = [], weights = [(''encoder_stage0/kernel'', \<lparr>shape = [1], vals = [0]\<rparr>)]\<rparr>,
      \<lparr>dataname = ''d'', tasks = [], weights = [(''encoder_stage0/kernel'', \<lparr>shape = [1], vals = [2]\<rparr>)]\<rparr>]
     [[(''encoder_stage0/kernel'', \<lparr>shape = [1], vals = [0]\<rparr>)],
      [(''encoder_stage0/kernel'', \<lparr>shape = [1], vals = [2]\<rparr>)]]
     [[(''encoder_stage0/kernel'', \<lparr>shape = [1], vals = [0]\<rparr>)],
      [(''encoder_stage0/kernel'', \<lparr>shape = [1], vals = [2]\<rparr>)]]
     (Some \<lparr>enc = None, dec = None, cache = None\<rparr>) EncFedavg DecFedavg 0
   = (Returned,
      \<lparr>live =
         [\<lparr>dataname = ''d'', tasks = [], weights = [(''encoder_stage0/kernel'', \<lparr>shape = [1], vals = [0]\<rparr>)]\<rparr>,
          \<lparr>dataname = ''d'', tasks = [], weights = [(''encoder_stage0/kernel'', \<lparr>shape = [1], vals = [2]\<rparr>)]\<rparr>],
       staged =
         [[(''encoder_stage0/kernel'', \<lparr>shape = [1], vals = [1]\<rparr>)],
          [(''encoder_stage0/kernel'', \<lparr>shape = [1], vals = [1]\<rparr>)]],
       hyper = Some \<lparr>enc = None, dec = None, cache = Some \<lparr>cacheEnc = None, cacheDec = None\<rparr>\<rparr>\<rparr>)"
  by (simp add: agg_eval)

text \<open>The same call with the decoder strategy \<^verbatim>\<open>none\<close> runs to its end and loads the mean
  into both models.\<close>

lemma aggregate_decnone_loads:
  "aggregate
     [\<lparr>dataname = ''d'', tasks = [], weights = [(''encoder_stage0/kernel'', \<lparr>shape = [1], vals = [0]\<rparr>)]\<rparr>,
      \<lparr>dataname = ''d'', tasks = [], weights = [(''encoder_stage0/kernel'', \<lparr>shape = [1], vals = [2]\<rparr>)]\<rparr>]
     [[(''encoder_stage0/kernel'', \<lparr>shape = [1], vals = [0]\<rparr>)],
      [(''encoder_stage0/kernel'', \<lparr>shape = [1], vals = [2]\<rparr>)]]
     [[(''encoder_stage0/kernel'', \<lparr>shape = [1], vals = [0]\<rparr>)],
      [(''encoder_stage0/kernel'', \<lparr>shape = [1], vals = [2]\<rparr>)]]
     (Some \<lparr>enc = None, dec = None, cache = None\<rparr>) EncFedavg DecNone 0
   = (Done,
      \<lparr>live =
         [\<lparr>dataname = ''d'', tasks = [], weights = [(''encoder_stage0/kernel'', \<lparr>shape = [1], vals = [1]\<rparr>)]\<rparr>,
          \<lparr>dataname = ''d'', tasks = [], weights = [(''encoder_stage0/kernel'', \<lparr>shape = [1], vals = [1]\<rparr>)]\<rparr>],
       staged =
         [[(''encoder_stage0/kernel'', \<lparr>shape = [1], vals = [1]\<rparr>)],
          [(''encoder_stage0/kernel'', \<lparr>shape = [1], vals = [1]\<rparr>)]],
       hyper = Some \<lparr>enc = None, dec = None, cache = Some \<lparr>cacheEnc = None, cacheDec = None\<rparr>\<rparr>\<rparr>)"
  by (simp add: agg_eval)

text \<open>
  C4 (as stated): with the decoder strategy \<^verbatim>\<open>cross_attention\<close> and no decoder policy the
  error is raised before any mutation, for every encoder strategy. The check sits in the
  decoder branch, after the encoder branch has run: with the encoder strategy \<^verbatim>\<open>fedavg\<close>
  the staged encoder entries 0 and 2 are both 1 already when the error is raised.
\<close>

theorem aggregate_unsupported_after_mutation:
  "aggregate
     [\<lparr>dataname = ''d'', tasks = [], weights = [(''encoder_stage0/kernel'', \<lparr>shape = [1], vals = [0]\<rparr>)]\<rparr>,
      \<lparr>dataname = ''d'', tasks = [], weights = [(''encoder_stage0/kernel'', \<lparr>shape = [1], vals = [2]\<rparr>)]\<rparr>]
     [[(''encoder_stage0/kernel'', \<lparr>shape = [1], vals = [0]\<rparr>)],
      [(''encoder_stage0/kernel'', \<lparr>shape = [1], vals = [2]\<rparr>)]]
     [[(''encoder_stage0/kernel'', \<lparr>shape = [1], vals = [0]\<rparr>)],
      [(''encoder_stage0/kernel'', \<lparr>shape = [1], vals = [2]\<rparr>)]]
     (Some \<lparr>enc = None, dec = None, cache = None\<rparr>) EncFedavg CrossAttention 0
   = (Threw UnsupportedStrategy,
      \<lparr>live =
         [\<lparr>dataname = ''d'', tasks = [], weights = [(''encoder_stage0/kernel'', \<lparr>shape = [1], vals = [0]\<rparr>)]\<rparr>,
          \<lparr>dataname = ''d'', tasks = [], weights = [(''encoder_stage0/kernel'', \<lparr>shape = [1], vals = [2]\<rparr>)]\<rparr>],
       staged =
         [[(''encoder_stage0/kernel'', \<lparr>shape = [1], vals = [1]\<rparr>)],
          [(''encoder_stage0/kernel'', \<lparr>shape = [1], vals = [1]\<rparr>)]],
       hyper = Some \<lparr>enc = None, dec = None, cache = Some \<lparr>cacheEnc = None, cacheDec = None\<rparr>\<rparr>\<rparr>)"
  by (simp add: agg_eval)

lemma forEach_inv:
  assumes "\<And>x s r s'. P s \<Longrightarrow> f x s = (r, s') \<Longrightarrow> P s'"
    and "P s" and "forEach f xs s = (r, s')"
  shows "P s'"
  using assms(2,3)
proof (induction xs arbitrary: s)
  case Nil
  then show ?case by simp
next
  case (Cons x xs)
  obtain r1 s1 where f: "f x s = (r1, s1)" by (cases "f x s")
  with assms(1) [OF Cons.prems(1)] have p1: "P s1" by blast
  show ?case
  proof (cases r1)
    case Done
    with f Cons.prems(2) have "forEach f xs s1 = (r, s')" by simp
    with Cons.IH p1 show ?thesis by blast
  next
    case Returned
    with f Cons.prems(2) p1 show ?thesis by simp
  next
    case (Threw e)
    with f Cons.prems(2) p1 show ?thesis by simp
  qed
qed

lemma tryE_inv:
  assumes "\<And>x. m = Inr x \<Longrightarrow> k x s = (r, s') \<Longrightarrow> P s'"
    and "P s" and "tryE m k s = (r, s')"
  shows "P s'"
  using assms by (cases m) (auto simp: tryE_def)

lemma stageWrite_inv:
  "stageWrite i keys src s = (r, s') \<Longrightarrow> decoderUntouched clients h s \<Longrightarrow> decoderUntouched clients h s'"
  by (auto simp: stageWrite_def decoderUntouched_def split: if_splits)

lemma encFedavg_inv:
  assumes "encFedavg saveCkpt N encKeys s = (r, s')" and "decoderUntouched clients h s"
  shows "decoderUntouched clients h s'"
proof -
  show ?thesis
    using assms(1) unfolding encFedavg_def
  proof (rule tryE_inv [where P = "decoderUntouched clients h", rotated 2])
    fix x assume "forEach (\<lambda>i. stageWrite i encKeys x) [0..<N] s = (r, s')"
    then show "decoderUntouched clients h s'"
      by (rule forEach_inv [where P = "decoderUntouched clients h", rotated 2])
         (auto intro: stageWrite_inv assms(2))
  qed (rule assms(2))
qed

lemma caApply_inv:
  assumes "caApply N encKeys encShapes fl fd gd s = (r, s')" and "decoderUntouched clients h s"
  shows "decoderUntouched clients h s'"
proof -
  from assms(2) obtain h0 where h0: "hyper s = Some h0" "dec h0 = dec h"
      "cacheDec (theCache h0) = cacheDec (theCache h)" "live s = clients"
    by (auto simp: decoderUntouched_def split: option.splits)
  show ?thesis
  proof (cases "enc h0")
    case None
    with h0 assms(1) have "forEach (\<lambda>i. tryE (vadd (fl ! i) gd) (\<lambda>newVec.
                              tryE (unflatten newVec encKeys encShapes) (stageWrite i encKeys))) [0..<N] s = (r, s')"
      by (simp add: caApply_def)
    then show ?thesis
    proof (rule forEach_inv [where P = "decoderUntouched clients h", rotated 2])
      fix x t q t'
      assume p: "decoderUntouched clients h t"
        and "tryE (vadd (fl ! x) gd) (\<lambda>newVec. tryE (unflatten newVec encKeys encShapes) (stageWrite x encKeys)) t = (q, t')"
      then show "decoderUntouched clients h t'"
        by (auto simp: tryE_def split: sum.splits intro: stageWrite_inv)
    qed (rule assms(2))
  next
    case (Some e)
    let ?s1 = "s\<lparr>hyper := Some (h0\<lparr>cache := Some ((theCache h0)\<lparr>cacheEnc :=
                      Some \<lparr>cEncKeys = encKeys, cEncShapes = encShapes, cLastEnc = fl,
                            cLocalDelta = fd, cGlobalDelta = gd\<rparr>\<rparr>)\<rparr>)\<rparr>"
    have p1: "decoderUntouched clients h ?s1"
      using h0 by (simp add: decoderUntouched_def theCache_def)
    from Some h0 assms(1) have "tryE (encForward (alphaVar e) fl fd gd) (\<lambda>flattenNew.
                 forEach (\<lambda>i. tryE (unflatten (flattenNew ! i) encKeys encShapes)
                                 (stageWrite i encKeys)) [0..<N]) ?s1 = (r, s')"
      by (simp add: caApply_def)
    then show ?thesis
    proof (rule tryE_inv [where P = "decoderUntouched clients h", rotated 2])
      fix x assume "forEach (\<lambda>i. tryE (unflatten (x ! i) encKeys encShapes) (stageWrite i encKeys)) [0..<N] ?s1 = (r, s')"
      then show "decoderUntouched clients h s'"
      proof (rule forEach_inv [where P = "decoderUntouched clients h", rotated 2])
        fix i t q t'
        assume "decoderUntouched clients h t"
          and "tryE (unflatten (x ! i) encKeys encShapes) (stageWrite i encKeys) t = (q, t')"
        then show "decoderUntouched clients h t'"
          by (auto simp: tryE_def split: sum.splits intro: stageWrite_inv)
      qed (rule p1)
    qed (rule p1)
  qed
qed

lemma encCA_inv:
  assumes "encCA cl saveCkpt lastC c encKeys encShapes s = (r, s')" and "decoderUntouched clients h s"
  shows "decoderUntouched clients h s'"
  using assms
  by (auto simp: encCA_def tryE_def split: sum.splits intro: caApply_inv)

lemma encoderStage_inv:
  assumes "encoderStage cl saveCkpt lastC ea c s0 s = (r, s')" and "decoderUntouched clients h s"
  shows "decoderUntouched clients h s'"
  using assms
  by (cases ea) (auto simp: encoderStage_def Let_def intro: encFedavg_inv encCA_inv)

lemma decoderStage_unsupported:
  assumes "decoderStage cl saveCkpt lastC CrossAttention s = (r, s')"
    and "decoderUntouched clients h s" and "dec h = None"
  shows "s' = s \<and> (\<exists>e. r = Threw e) \<and> (\<forall>bs. blocksOf cl saveCkpt = Inr bs \<longrightarrow> r = Threw UnsupportedStrategy)"
  using assms
  by (auto simp: decoderStage_def tryE_def decCross_def decoderUntouched_def split: sum.splits option.splits)

lemma forEach_noret:
  assumes "\<And>x s r s'. f x s = (r, s') \<Longrightarrow> r \<noteq> Returned"
    and "forEach f xs s = (r, s')"
  shows "r \<noteq> Returned"
  using assms(2)
proof (induction xs arbitrary: s)
  case Nil
  then show ?case by auto
next
  case (Cons x xs)
  obtain r1 s1 where f: "f x s = (r1, s1)" by (cases "f x s")
  from assms(1) [OF f] have n: "r1 \<noteq> Returned" .
  show ?case
  proof (cases r1)
    case Done
    with f Cons.prems have "forEach f xs s1 = (r, s')" by simp
    with Cons.IH show ?thesis by blast
  next
    case Returned
    with n show ?thesis by simp
  next
    case (Threw e)
    with f Cons.prems show ?thesis by auto
  qed
qed

lemma stageWrite_noret: "stageWrite i keys src s = (r, s') \<Longrightarrow> r \<noteq> Returned"
  by (auto simp: stageWrite_def split: if_splits)

lemma tryE_noret:
  assumes "\<And>x. m = Inr x \<Longrightarrow> k x s = (r, s') \<Longrightarrow> r \<noteq> Returned"
    and "tryE m k s = (r, s')"
  shows "r \<noteq> Returned"
  using assms by (cases m) (auto simp: tryE_def)

lemma encFedavg_noret: "encFedavg saveCkpt N encKeys s = (r, s') \<Longrightarrow> r \<noteq> Returned"
  unfolding encFedavg_def
  by (erule tryE_noret [rotated]) (erule forEach_noret [rotated], erule stageWrite_noret)

lemma writeUnflat_noret:
  "tryE (unflatten v encKeys encShapes) (stageWrite i encKeys) t = (q, t') \<Longrightarrow> q \<noteq> Returned"
  by (erule tryE_noret [rotated]) (erule stageWrite_noret)

lemma caApply_noret: "caApply N encKeys encShapes fl fd gd s = (r, s') \<Longrightarrow> r \<noteq> Returned"
proof -
  assume a: "caApply N encKeys encShapes fl fd gd s = (r, s')"
  show ?thesis
  proof (cases "hyper s")
    case None
    with a show ?thesis by (auto simp: caApply_def)
  next
    case (Some h0)
    show ?thesis
    proof (cases "enc h0")
      case None
      with Some a have "forEach (\<lambda>i. tryE (vadd (fl ! i) gd) (\<lambda>newVec.
                              tryE (unflatten newVec encKeys encShapes) (stageWrite i encKeys))) [0..<N] s = (r, s')"
        by (simp add: caApply_def)
      then show ?thesis
        by (rule forEach_noret [rotated]) (erule tryE_noret [rotated], erule writeUnflat_noret)
    next
      case (Some e)
      with \<open>hyper s = Some h0\<close> a obtain s1 where "tryE (encForward (alphaVar e) fl fd gd) (\<lambda>flattenNew.
                 forEach (\<lambda>i. tryE (unflatten (flattenNew ! i) encKeys encShapes)
                                 (stageWrite i encKeys)) [0..<N]) s1 = (r, s')"
        by (simp add: caApply_def)
      then show ?thesis
        by (rule tryE_noret [rotated]) (erule forEach_noret [rotated], erule writeUnflat_noret)
    qed
  qed
qed

lemma encCA_noret: "encCA cl saveCkpt lastC c encKeys encShapes s = (r, s') \<Longrightarrow> r \<noteq> Returned"
  by (auto simp: encCA_def tryE_def split: sum.splits dest: caApply_noret)

lemma encoderStage_noret: "encoderStage cl saveCkpt lastC ea c s0 s = (r, s') \<Longrightarrow> r \<noteq> Returned"
  by (cases ea) (auto simp: encoderStage_def Let_def dest: encFedavg_noret encCA_noret)

lemma mapE_ex_ok:
  "(\<forall>x\<in>set xs. \<exists>y. f x = Inr y) \<Longrightarrow> \<exists>ys. mapE f xs = Inr ys"
  by (induction xs) auto

lemma toRel_filtered_ok:
  "\<exists>rels. mapE (\<lambda>fk. toRelativeDecoderKey fk task) (getDecoderKeysForTask ks task) = Inr rels"
  by (rule mapE_ex_ok) (auto simp: getDecoderKeysForTask_def toRelativeDecoderKey_def)

lemma blocksOfClient_ok:
  assumes "i < length saveCkpt"
  shows "\<exists>bs. blocksOfClient clients saveCkpt i = Inr bs"
proof -
  have "\<exists>bs. mapE (\<lambda>task. bindE (mapE (\<lambda>fk. toRelativeDecoderKey fk task)
                           (getDecoderKeysForTask (map fst (saveCkpt ! i)) task))
                    (\<lambda>rels. Inr ((i, task), rels))) (tasks (clients ! i)) = Inr bs"
  proof (rule mapE_ex_ok, rule ballI)
    fix task
    from toRel_filtered_ok [of task "map fst (saveCkpt ! i)"]
    show "\<exists>y. bindE (mapE (\<lambda>fk. toRelativeDecoderKey fk task)
                           (getDecoderKeysForTask (map fst (saveCkpt ! i)) task))
                    (\<lambda>rels. Inr ((i, task), rels)) = Inr y"
      by auto
  qed
  with assms show ?thesis by (simp add: blocksOfClient_def wmAt_def)
qed

lemma blocksOf_ok:
  assumes "length clients \<le> length saveCkpt"
  shows "\<exists>bs. blocksOf clients saveCkpt = Inr bs"
proof -
  have "\<exists>bs. mapE (blocksOfClient clients saveCkpt) [0..<length clients] = Inr bs"
    by (rule mapE_ex_ok) (use assms in \<open>auto intro: blocksOfClient_ok\<close>)
  then show ?thesis by (auto simp: blocksOf_def)
qed

text \<open>
  C4 (amended): when \<^verbatim>\<open>aggregate\<close> is called with the decoder strategy \<^verbatim>\<open>cross_attention\<close> and
  no decoder policy, it never returns normally, and when it throws no client model weight
  has changed and the decoder policy and the decoder cache entry are as before. With the
  encoder strategy \<^verbatim>\<open>none\<close> the staged checkpoints and the encoder policy and cache entry
  are unchanged too, and the error is the unsupported-strategy error whenever a Hyperweight
  object is attached and every client has a checkpoint.
\<close>

theorem aggregate_cross_attention_without_policy:
  assumes nopol: "\<forall>h. hw = Some h \<longrightarrow> dec h = None"
    and agg: "aggregate clients saveCkpt lastC hw ea CrossAttention c = (r, st)"
  shows "(\<exists>e. r = Threw e) \<and> live st = clients
     \<and> (\<forall>h. hw = Some h \<longrightarrow>
           (\<exists>h'. hyper st = Some h' \<and> dec h' = None
                \<and> cacheDec (theCache h') = cacheDec (theCache h)))
     \<and> (ea = EncNone \<longrightarrow>
           staged st = saveCkpt
           \<and> (\<forall>h. hw = Some h \<longrightarrow>
                 (\<exists>h'. hyper st = Some h' \<and> enc h' = enc h
                      \<and> cacheEnc (theCache h') = cacheEnc (theCache h)))
           \<and> (hw \<noteq> None \<and> saveCkpt \<noteq> [] \<and> length clients \<le> length saveCkpt
                \<longrightarrow> r = Threw UnsupportedStrategy))"
proof (cases "saveCkpt = [] \<or> hw = None")
  case True
  then have "r = Threw TypeError \<and> st = \<lparr>live = clients, staged = saveCkpt, hyper = hw\<rparr>"
    using agg by (auto simp: aggregate_def tryE_def nthE_def split: if_splits)
  with True nopol show ?thesis by auto
next
  case False
  then obtain h where h: "hw = Some h" and ne: "saveCkpt \<noteq> []" by auto
  from nopol h have dn: "dec h = None" by simp
  let ?s1 = "\<lparr>live = clients, staged = saveCkpt, hyper = Some (ensureCache h)\<rparr>"
  have u1: "decoderUntouched clients h ?s1"
    by (simp add: decoderUntouched_def ensureCache_def theCache_def emptyCache_def split: option.splits)
  from agg h ne have run: "andThen (encoderStage clients saveCkpt lastC ea c (saveCkpt ! 0))
         (andThen (decoderStage clients saveCkpt lastC CrossAttention) (loadStage (length clients))) ?s1 = (r, st)"
    by (simp add: aggregate_def tryE_def nthE_def)
  obtain r1 s1 where e1: "encoderStage clients saveCkpt lastC ea c (saveCkpt ! 0) ?s1 = (r1, s1)"
    by (cases "encoderStage clients saveCkpt lastC ea c (saveCkpt ! 0) ?s1")
  from encoderStage_inv [OF e1 u1] have u2: "decoderUntouched clients h s1" .
  from encoderStage_noret [OF e1] have nr: "r1 \<noteq> Returned" .
  obtain r2 s2 where d2: "decoderStage clients saveCkpt lastC CrossAttention s1 = (r2, s2)"
    by (cases "decoderStage clients saveCkpt lastC CrossAttention s1")
  from decoderStage_unsupported [OF d2 u2 dn]
  have d: "s2 = s1" "\<exists>e. r2 = Threw e"
    "\<forall>bs. blocksOf clients saveCkpt = Inr bs \<longrightarrow> r2 = Threw UnsupportedStrategy" by auto
  have fin: "st = s1 \<and> (\<exists>e. r = Threw e) \<and> (r1 = Done \<longrightarrow> r = r2)"
  proof (cases r1)
    case Done
    with run e1 d2 d show ?thesis by (auto simp: andThen_def)
  next
    case Returned
    with nr show ?thesis by simp
  next
    case (Threw e)
    with run e1 show ?thesis by (auto simp: andThen_def)
  qed
  from u2 fin dn have p3: "\<exists>h'. hyper st = Some h' \<and> dec h' = None
                \<and> cacheDec (theCache h') = cacheDec (theCache h)"
    by (auto simp: decoderUntouched_def split: option.splits)
  from u2 fin have p2: "live st = clients" by (simp add: decoderUntouched_def)
  have p4: "staged st = saveCkpt \<and> (\<exists>h'. hyper st = Some h' \<and> enc h' = enc h
                      \<and> cacheEnc (theCache h') = cacheEnc (theCache h))
           \<and> (length clients \<le> length saveCkpt \<longrightarrow> r = Threw UnsupportedStrategy)" if "ea = EncNone"
  proof -
    from that e1 have "r1 = Done" "s1 = ?s1" by (simp_all add: encoderStage_def)
    with fin d blocksOf_ok [of clients saveCkpt] show ?thesis
      by (auto simp: ensureCache_def theCache_def emptyCache_def split: option.splits)
  qed
  from fin p2 p3 p4 h show ?thesis by auto
qed

lemmas ca_eval =
  encCA_def encoderDeltaLast_def pickU_def deltaDict_def tsub_def tbin_def tensor_ok_def
  broadcastShape_def vadd_def vbin_def flatten_def
  homoAverageEncoderDeltasInPlace_def caApply_def encForward_def encForwardOne_def unflatten_def
  getCaDelta_def solve_single dotList_def norm2_def

lemma homoLoop_single: "homoLoop [c] [d] 0 = Inr [d]"
proof -
  have r: "runEnd [c] (Suc 0) = Suc 0" by (subst runEnd.simps) simp
  have l: "homoLoop [c] ds (Suc 0) = Inr ds" for ds by (subst homoLoop.simps) simp
  show ?thesis
    by (subst homoLoop.simps) (simp add: r l addN_def sameLengths_def Let_def)
qed

text \<open>With the encoder strategy \<^verbatim>\<open>conflict_averse\<close> and an encoder policy attached the
  encoder cache entry has been replaced as well when the error is raised.\<close>

lemma aggregate_unsupported_after_cache_write:
  "fst (aggregate
     [\<lparr>dataname = ''d'', tasks = [], weights = [(''encoder_stage0/kernel'', \<lparr>shape = [1], vals = [1]\<rparr>)]\<rparr>]
     [[(''encoder_stage0/kernel'', \<lparr>shape = [1], vals = [1]\<rparr>)]]
     [[(''encoder_stage0/kernel'', \<lparr>shape = [1], vals = [0]\<rparr>)]]
     (Some \<lparr>enc = Some \<lparr>alphaVar = [1 / 10], encLr = 1 / 1000\<rparr>, dec = None, cache = None\<rparr>)
     ConflictAverse CrossAttention 0) = Threw UnsupportedStrategy
   \<and> map_option cLocalDelta (cacheEnc (theCache (the (hyper (snd (aggregate
     [\<lparr>dataname = ''d'', tasks = [], weights = [(''encoder_stage0/kernel'', \<lparr>shape = [1], vals = [1]\<rparr>)]\<rparr>]
     [[(''encoder_stage0/kernel'', \<lparr>shape = [1], vals = [1]\<rparr>)]]
     [[(''encoder_stage0/kernel'', \<lparr>shape = [1], vals = [0]\<rparr>)]]
     (Some \<lparr>enc = Some \<lparr>alphaVar = [1 / 10], encLr = 1 / 1000\<rparr>, dec = None, cache = None\<rparr>)
     ConflictAverse CrossAttention 0)))))) = Some [[1]]"
  by (simp add: agg_eval ca_eval homoLoop_single)

theorem aggregate_cross_attention_without_policy_witness:
  "fst (aggregate
     [\<lparr>dataname = ''d'', tasks = [edge], weights = [(''edge_decoder_stage0/kernel'', \<lparr>shape = [1], vals = [1]\<rparr>)]\<rparr>]
     [[(''edge_decoder_stage0/kernel'', \<lparr>shape = [1], vals = [1]\<rparr>)]]
     [[(''edge_decoder_stage0/kernel'', \<lparr>shape = [1], vals = [0]\<rparr>)]]
     (Some \<lparr>enc = None, dec = None, cache = None\<rparr>) EncNone CrossAttention 0) = Threw UnsupportedStrategy
   \<and> live (snd (aggregate
     [\<lparr>dataname = ''d'', tasks = [edge], weights = [(''edge_decoder_stage0/kernel'', \<lparr>shape = [1], vals = [1]\<rparr>)]\<rparr>]
     [[(''edge_decoder_stage0/kernel'', \<lparr>shape = [1], vals = [1]\<rparr>)]]
     [[(''edge_decoder_stage0/kernel'', \<lparr>shape = [1], vals = [0]\<rparr>)]]
     (Some \<lparr>enc = None, dec = None, cache = None\<rparr>) EncNone CrossAttention 0))
     = [\<lparr>dataname = ''d'', tasks = [edge], weights = [(''edge_decoder_stage0/kernel'', \<lparr>shape = [1], vals = [1]\<rparr>)]\<rparr>]
   \<and> staged (snd (aggregate
     [\<lparr>dataname = ''d'', tasks = [edge], weights = [(''edge_decoder_stage0/kernel'', \<lparr>shape = [1], vals = [1]\<rparr>)]\<rparr>]
     [[(''edge_decoder_stage0/kernel'', \<lparr>shape = [1], vals = [1]\<rparr>)]]
     [[(''edge_decoder_stage0/kernel'', \<lparr>shape = [1], vals = [0]\<rparr>)]]
     (Some \<lparr>enc = None, dec = None, cache = None\<rparr>) EncNone CrossAttention 0))
     = [[(''edge_decoder_stage0/kernel'', \<lparr>shape = [1], vals = [1]\<rparr>)]]"
proof -
  let ?cl = "[\<lparr>dataname = ''d'', tasks = [edge], weights = [(''edge_decoder_stage0/kernel'', \<lparr>shape = [1], vals = [1]\<rparr>)]\<rparr>]"
  let ?sv = "[[(''edge_decoder_stage0/kernel'', \<lparr>shape = [1], vals = [1]\<rparr>)]]"
  let ?la = "[[(''edge_decoder_stage0/kernel'', \<lparr>shape = [1], vals = [0]\<rparr>)]]"
  let ?hw = "Some \<lparr>enc = None, dec = None, cache = None\<rparr>"
  let ?res = "aggregate ?cl ?sv ?la ?hw EncNone CrossAttention 0"
  have a: "\<forall>h. ?hw = Some h \<longrightarrow> dec h = None" by simp
  have b: "?res = (fst ?res, snd ?res)" by simp
  from aggregate_cross_attention_without_policy [OF a b]
  have "fst ?res = Threw UnsupportedStrategy" and "live (snd ?res) = ?cl"
    and "staged (snd ?res) = ?sv"
    by auto
  then show ?thesis by simp
qed
















section \<open>Properties of the round state machine\<close>






lemma theCache_ensureCache [simp]: "theCache (ensureCache h) = theCache h"
  by (simp add: theCache_def ensureCache_def split: option.splits)

lemma enc_ensureCache [simp]: "enc (ensureCache h) = enc h"
  by (simp add: ensureCache_def split: option.splits)

lemma dec_ensureCache [simp]: "dec (ensureCache h) = dec h"
  by (simp add: ensureCache_def split: option.splits)














lemma updateEnc_skip:
  assumes "updateEnc vgrad cl sv la (h, evs) = (Done, h', evs')"
    and "enc h = None \<or> cacheEnc (theCache h) = None"
  shows "h' = h"
  using assms
  by (auto simp: updateEnc_def split: option.splits)











end
